theory Spec2Isabelle
  imports Main "HOL-Library.Word" "HOL-Library.Sublist"
begin

section \<open>The platform and the operating system\<close>

text \<open>
  \<^verbatim>\<open>handler.c\<close> is configured by the preprocessor: \<^verbatim>\<open>HAVE_SIGACTION\<close> and
  \<^verbatim>\<open>HAVE_SIGALTSTACK\<close> select branches, \<^verbatim>\<open>SIGBUS\<close> and \<^verbatim>\<open>SIGILL\<close> may be
  undefined, and the signal numbers and flag constants come from \<^verbatim>\<open><signal.h>\<close>.
  They are the fields of a platform, so every branch of the source is a branch of the model.
  \<open>sig_valid\<close> says for which signal numbers the kernel accepts a change of disposition
  (\<^verbatim>\<open>sigaction\<close> and \<^verbatim>\<open>signal\<close> fail with \<^verbatim>\<open>EINVAL\<close> on the others), and
  \<open>signal_flags\<close> are the flags the platform's \<^verbatim>\<open>signal\<close> installs a handler with.
\<close>

record platform =
  HAVE_SIGACTION :: bool
  HAVE_SIGALTSTACK :: bool
  SIGBUS :: "int option"
  SIGILL :: "int option"
  SIGFPE :: int
  SIGSEGV :: int
  SIGALRM :: int
  SA_ONSTACK :: int
  SS_ONSTACK :: int
  SIGSTKSZ :: nat
  sig_valid :: "int \<Rightarrow> bool"
  signal_flags :: int

text \<open>The value of a \<^verbatim>\<open>sa_handler\<close>: the two handlers of this module, the three
  constants of \<^verbatim>\<open><signal.h>\<close>, and any other function of the process.\<close>

datatype sighandler =
    SIG_DFL
  | SIG_IGN
  | SIG_ERR
  | faulthandler_fatal_error_fn
  | faulthandler_alarm_fn
  | other_handler nat

record sigaction_t =
  sa_handler :: sighandler
  sa_mask :: "int list"
  sa_flags :: int

text \<open>\<^verbatim>\<open>_Py_sighandler_t\<close> is \<^verbatim>\<open>struct sigaction\<close> with \<^verbatim>\<open>HAVE_SIGACTION\<close> and
  \<^verbatim>\<open>PyOS_sighandler_t\<close> without it; it is also what the kernel keeps for each signal.\<close>

datatype Py_sighandler_t = Sigaction sigaction_t | Sighandler sighandler

fun handler_of :: "Py_sighandler_t \<Rightarrow> sighandler" where
  "handler_of (Sigaction a) = sa_handler a"
| "handler_of (Sighandler h) = h"

record stack_t =
  ss_sp :: "nat option"
  ss_flags :: int
  ss_size :: nat

datatype os_call =
    Fflush_stderr
  | Malloc_call nat
  | Sigaltstack_call stack_t
  | AtExit_call
  | Sigaction_call int Py_sighandler_t
  | Signal_call int sighandler
  | Alarm_call "32 word"
  | Write_call int string
  | Dump_backtrace_call int
  | Dump_backtrace_threads_call int nat

text \<open>What the outside answers during one call: the descriptor of \<^verbatim>\<open>stderr\<close>, the
  result of \<^verbatim>\<open>PyMem_Malloc\<close>, whether \<^verbatim>\<open>sigaltstack\<close> succeeds, the result of
  \<^verbatim>\<open>PyGILState_GetThisThreadState\<close> and the error message of
  \<^verbatim>\<open>faulthandler_dump_backtrace_threads\<close> (\<open>None\<close> is \<^verbatim>\<open>NULL\<close>).\<close>

record env =
  stderr_fileno :: int
  malloc_result :: "nat option"
  sigaltstack_ok :: bool
  this_thread_state :: "nat option"
  dump_threads_errmsg :: "string option"

section \<open>The data of handler.c\<close>

record fault_handler_t =
  signum :: int
  enabled :: int
  name :: "string option"
  previous :: Py_sighandler_t

record fault_alarm_t =
  fd :: int
  delay :: "32 word"
  repeat :: "32 word"
  all_threads :: "32 word"

text \<open>The globals of the file, then the part of the process they act on: the kernel's
  disposition of every signal, the installed alternate stack, the seconds of the pending
  \<^verbatim>\<open>alarm\<close> (0 when none is pending), and the calls made to the outside, in order.\<close>

record state =
  faulthandler_enabled :: int
  fatal_error_fd :: int
  stack :: stack_t
  fault_handlers :: "fault_handler_t list"
  fault_alarm :: fault_alarm_t
  sig_disposition :: "int \<Rightarrow> Py_sighandler_t"
  installed_altstack :: "stack_t option"
  pending_alarm :: "32 word"
  os_calls :: "os_call list"

datatype pyerr = RuntimeError string | ValueError string | ArgumentError

definition fault_signals :: "platform \<Rightarrow> int list" where
  "fault_signals p =
     (case SIGBUS p of Some b \<Rightarrow> [b] | None \<Rightarrow> []) @
     (case SIGILL p of Some i \<Rightarrow> [i] | None \<Rightarrow> []) @
     [SIGFPE p, SIGSEGV p]"

definition NFAULT_SIGNALS :: "platform \<Rightarrow> nat" where
  "NFAULT_SIGNALS p = length (fault_signals p)"

text \<open>A static object of C starts zeroed: signal 0, not enabled, a \<^verbatim>\<open>NULL\<close> name and a
  zeroed \<^verbatim>\<open>previous\<close>; \<^verbatim>\<open>fatal_error_fd\<close> starts at 2.\<close>

definition zero_previous :: "platform \<Rightarrow> Py_sighandler_t" where
  "zero_previous p =
     (if HAVE_SIGACTION p
      then Sigaction \<lparr>sa_handler = SIG_DFL, sa_mask = [], sa_flags = 0\<rparr>
      else Sighandler SIG_DFL)"

definition zero_handler :: "platform \<Rightarrow> fault_handler_t" where
  "zero_handler p = \<lparr>signum = 0, enabled = 0, name = None, previous = zero_previous p\<rparr>"

definition static_state :: "platform \<Rightarrow> state" where
  "static_state p =
     \<lparr>faulthandler_enabled = 0,
      fatal_error_fd = 2,
      stack = \<lparr>ss_sp = None, ss_flags = 0, ss_size = 0\<rparr>,
      fault_handlers = replicate (NFAULT_SIGNALS p) (zero_handler p),
      fault_alarm = \<lparr>fd = 0, delay = 0, repeat = 0, all_threads = 0\<rparr>,
      sig_disposition = (\<lambda>sg. zero_previous p),
      installed_altstack = None,
      pending_alarm = 0,
      os_calls = []\<rparr>"

section \<open>Calls to the outside\<close>

definition log_call :: "os_call \<Rightarrow> state \<Rightarrow> state" where
  "log_call c s = s\<lparr>os_calls := os_calls s @ [c]\<rparr>"

text \<open>\<^verbatim>\<open>sigaction(sg, act, oact)\<close>: on success the disposition becomes \<open>act\<close> and the
  old one is returned; on failure nothing changes and \<open>None\<close> stands for the result -1.\<close>

definition os_sigaction ::
  "platform \<Rightarrow> int \<Rightarrow> Py_sighandler_t \<Rightarrow> state \<Rightarrow> Py_sighandler_t option \<times> state" where
  "os_sigaction p sg act s =
     (let s1 = log_call (Sigaction_call sg act) s in
      if sig_valid p sg
      then (Some (sig_disposition s sg), s1\<lparr>sig_disposition := (sig_disposition s)(sg := act)\<rparr>)
      else (None, s1))"

text \<open>\<^verbatim>\<open>signal(sg, h)\<close>: on success the handler becomes \<open>h\<close>, with the platform's flags
  where the kernel keeps a \<^verbatim>\<open>struct sigaction\<close>, and the old handler is returned; on
  failure nothing changes and \<^verbatim>\<open>SIG_ERR\<close> is returned.\<close>

definition signal_disposition :: "platform \<Rightarrow> sighandler \<Rightarrow> Py_sighandler_t" where
  "signal_disposition p h =
     (if HAVE_SIGACTION p
      then Sigaction \<lparr>sa_handler = h, sa_mask = [], sa_flags = signal_flags p\<rparr>
      else Sighandler h)"

definition os_signal :: "platform \<Rightarrow> int \<Rightarrow> sighandler \<Rightarrow> state \<Rightarrow> sighandler \<times> state" where
  "os_signal p sg h s =
     (let s1 = log_call (Signal_call sg h) s in
      if sig_valid p sg
      then (handler_of (sig_disposition s sg),
            s1\<lparr>sig_disposition := (sig_disposition s)(sg := signal_disposition p h)\<rparr>)
      else (SIG_ERR, s1))"

text \<open>\<^verbatim>\<open>alarm(n)\<close> replaces the pending alarm; \<^verbatim>\<open>alarm(0)\<close> cancels it.\<close>

definition os_alarm :: "32 word \<Rightarrow> state \<Rightarrow> state" where
  "os_alarm n s = (log_call (Alarm_call n) s)\<lparr>pending_alarm := n\<rparr>"

definition os_sigaltstack :: "env \<Rightarrow> stack_t \<Rightarrow> state \<Rightarrow> state" where
  "os_sigaltstack e st s =
     (let s1 = log_call (Sigaltstack_call st) s in
      if sigaltstack_ok e then s1\<lparr>installed_altstack := Some st\<rparr> else s1)"

text \<open>Modelled from the spec: \<^verbatim>\<open>PUTS\<close> is a macro of \<^verbatim>\<open>faulthandler.h\<close>, which is not
  among the sources. The spec has the message written "directly to the cached output
  target using raw, non-buffering write operations": one write of the text to the
  descriptor.\<close>

definition PUTS :: "int \<Rightarrow> string \<Rightarrow> state \<Rightarrow> state" where
  "PUTS out_fd str s = log_call (Write_call out_fd str) s"

text \<open>Modelled from the spec: \<^verbatim>\<open>faulthandler_dump_backtrace\<close> and
  \<^verbatim>\<open>faulthandler_dump_backtrace_threads\<close> are the backtrace provider, which is not among
  the sources. The spec has it write the call stack of the current execution context,
  which always succeeds, or of all of them, which may fail with a message.\<close>

definition faulthandler_dump_backtrace :: "int \<Rightarrow> state \<Rightarrow> state" where
  "faulthandler_dump_backtrace out_fd s = log_call (Dump_backtrace_call out_fd) s"

definition faulthandler_dump_backtrace_threads ::
  "env \<Rightarrow> int \<Rightarrow> nat \<Rightarrow> state \<Rightarrow> string option \<times> state" where
  "faulthandler_dump_backtrace_threads e out_fd current_thread s =
     (dump_threads_errmsg e, log_call (Dump_backtrace_threads_call out_fd current_thread) s)"

definition get_stderr :: "env \<Rightarrow> state \<Rightarrow> int \<times> state" where
  "get_stderr e s = (stderr_fileno e, log_call Fflush_stderr s)"

section \<open>The fatal fault handler\<close>

text \<open>A run of straight-line statements: the states after each of them, in order.
  A statement whose behaviour C leaves undefined yields \<open>None\<close>, and so does the run.\<close>

fun run_steps :: "('s \<Rightarrow> 's) list \<Rightarrow> 's \<Rightarrow> 's list" where
  "run_steps [] s = []"
| "run_steps (f # fs) s = f s # run_steps fs (f s)"

fun run_steps_opt :: "('s \<Rightarrow> 's option) list \<Rightarrow> 's \<Rightarrow> 's list option" where
  "run_steps_opt [] s = Some []"
| "run_steps_opt (f # fs) s =
     (case f s of
        None \<Rightarrow> None
      | Some s1 \<Rightarrow> (case run_steps_opt fs s1 of None \<Rightarrow> None | Some sts \<Rightarrow> Some (s1 # sts)))"

text \<open>The loop of lines 62 to 66. \<open>handler\<close> is the entry the pointer of that name is at
  (\<open>None\<close> before the first assignment); the result is its value after the loop.\<close>

function scan_handlers ::
  "platform \<Rightarrow> fault_handler_t list \<Rightarrow> int \<Rightarrow> nat \<Rightarrow> nat option \<Rightarrow> nat option" where
  "scan_handlers p hs sg i handler =
     (if i < NFAULT_SIGNALS p
      then (if signum (hs ! i) = sg then Some i
            else scan_handlers p hs sg (Suc i) (Some i))
      else handler)"
  by pat_completeness auto
termination
  by (relation "measure (\<lambda>(p, hs, sg, i, handler). NFAULT_SIGNALS p - i)") auto

declare scan_handlers.simps [simp del]

definition set_handler :: "nat \<Rightarrow> fault_handler_t \<Rightarrow> state \<Rightarrow> state" where
  "set_handler i h s = s\<lparr>fault_handlers := (fault_handlers s)[i := h]\<rparr>"

text \<open>Lines 67 to 71 and 232 to 236: the previous handler of entry \<open>i\<close> is given back to
  the kernel, and the result of the call is dropped.\<close>

definition restore_previous :: "platform \<Rightarrow> nat \<Rightarrow> state \<Rightarrow> state" where
  "restore_previous p i s =
     (let h = fault_handlers s ! i in
      if HAVE_SIGACTION p
      then snd (os_sigaction p (signum h) (previous h) s)
      else snd (os_signal p (signum h) (handler_of (previous h)) s))"

definition clear_enabled :: "nat \<Rightarrow> state \<Rightarrow> state" where
  "clear_enabled i s = set_handler i ((fault_handlers s ! i)\<lparr>enabled := 0\<rparr>) s"

text \<open>Line 75. The name of an entry that was never populated is \<^verbatim>\<open>NULL\<close>, which is
  no string to write: the behaviour is undefined.\<close>

definition PUTS_name :: "int \<Rightarrow> nat \<Rightarrow> state \<Rightarrow> state option" where
  "PUTS_name out_fd i s =
     (case name (fault_handlers s ! i) of
        None \<Rightarrow> None
      | Some str \<Rightarrow> Some (PUTS out_fd str s))"

text \<open>\<^verbatim>\<open>faulthandler_fatal_error\<close>, statement by statement: the states after lines
  68, 72, 74, 75, 76 and 78. The descriptor is read once, on line 57.\<close>

definition faulthandler_fatal_error_run ::
  "platform \<Rightarrow> int \<Rightarrow> state \<Rightarrow> state list option" where
  "faulthandler_fatal_error_run p sg s =
     (let out_fd = fatal_error_fd s in
      case scan_handlers p (fault_handlers s) sg 0 None of
        None \<Rightarrow> None
      | Some i \<Rightarrow>
          run_steps_opt
            [\<lambda>s. Some (restore_previous p i s),
             \<lambda>s. Some (clear_enabled i s),
             \<lambda>s. Some (PUTS out_fd ''Fatal Python error: '' s),
             PUTS_name out_fd i,
             \<lambda>s. Some (PUTS out_fd [CHR 0x0A, CHR 0x0A] s),
             \<lambda>s. Some (faulthandler_dump_backtrace out_fd s)] s)"

definition faulthandler_fatal_error :: "platform \<Rightarrow> int \<Rightarrow> state \<Rightarrow> state option" where
  "faulthandler_fatal_error p sg s =
     (case faulthandler_fatal_error_run p sg s of
        None \<Rightarrow> None
      | Some sts \<Rightarrow> Some (last (s # sts)))"

section \<open>The watchdog\<close>

definition faulthandler_cancel_dumpbacktrace_later :: "state \<Rightarrow> state" where
  "faulthandler_cancel_dumpbacktrace_later s = os_alarm 0 s"

definition faulthandler_cancel_dumpbacktrace_later_py :: "state \<Rightarrow> (pyerr + unit) \<times> state" where
  "faulthandler_cancel_dumpbacktrace_later_py s =
     (Inr (), faulthandler_cancel_dumpbacktrace_later s)"

text \<open>Lines 112 to 115.\<close>

definition alarm_again :: "bool \<Rightarrow> state \<Rightarrow> state" where
  "alarm_again ok s =
     (if ok \<and> repeat (fault_alarm s) \<noteq> 0
      then os_alarm (delay (fault_alarm s)) s
      else faulthandler_cancel_dumpbacktrace_later s)"

definition faulthandler_alarm :: "env \<Rightarrow> int \<Rightarrow> state \<Rightarrow> state" where
  "faulthandler_alarm e sg s =
     (if all_threads (fault_alarm s) \<noteq> 0
      then (case this_thread_state e of
              None \<Rightarrow> s
            | Some current_thread \<Rightarrow>
                (let (errmsg, s1) =
                       faulthandler_dump_backtrace_threads e (fd (fault_alarm s)) current_thread s;
                     ok = (errmsg = None)
                 in alarm_again ok s1))
      else (let s1 = faulthandler_dump_backtrace (fd (fault_alarm s)) s;
                ok = True
            in alarm_again ok s1))"

text \<open>\<^verbatim>\<open>PyArg_ParseTupleAndKeywords\<close> with the format \<^verbatim>\<open>i|ii\<close> gives three C ints, the
  last two 0 when absent, or fails with its own exception: \<open>args\<close> is its result.\<close>

definition faulthandler_dumpbacktrace_later ::
  "platform \<Rightarrow> env \<Rightarrow> (32 word \<times> 32 word \<times> 32 word) option \<Rightarrow> state \<Rightarrow> (pyerr + unit) \<times> state" where
  "faulthandler_dumpbacktrace_later p e args s =
     (case args of
        None \<Rightarrow> (Inl ArgumentError, s)
      | Some (delay_arg, repeat_arg, all_threads_arg) \<Rightarrow>
          if sint delay_arg \<le> 0
          then (Inl (ValueError ''delay must be greater than 0''), s)
          else
            (let (out_fd, s1) = get_stderr e s in
             if out_fd = - 1
             then (Inl (RuntimeError ''unable to get stderr file descriptor''), s1)
             else
               (let (prev, s2) = os_signal p (SIGALRM p) faulthandler_alarm_fn s1 in
                if prev = SIG_ERR
                then (Inl (RuntimeError ''unable to set SIGALRM handler''), s2)
                else
                  (Inr (),
                   os_alarm delay_arg
                     (s2\<lparr>fault_alarm :=
                          \<lparr>fd = out_fd, delay = delay_arg, repeat = repeat_arg,
                           all_threads = all_threads_arg\<rparr>\<rparr>)))))"

text \<open>The kernel's side of a fire. An alarm is one-shot: when it expires nothing is
  pending any more, and \<^verbatim>\<open>SIGALRM\<close> is delivered to the installed handler. The result is
  \<open>None\<close> when no alarm is pending or the handler of \<^verbatim>\<open>SIGALRM\<close> is not the watchdog's.\<close>

definition alarm_expires :: "platform \<Rightarrow> env \<Rightarrow> state \<Rightarrow> state option" where
  "alarm_expires p e s =
     (if pending_alarm s \<noteq> 0 \<and>
         handler_of (sig_disposition s (SIGALRM p)) = faulthandler_alarm_fn
      then Some (faulthandler_alarm e (SIGALRM p) (s\<lparr>pending_alarm := 0\<rparr>))
      else None)"

section \<open>The controller\<close>

definition faulthandler_init :: "platform \<Rightarrow> state \<Rightarrow> state" where
  "faulthandler_init p s =
     (let s1 = s\<lparr>faulthandler_enabled := 0\<rparr> in
      if HAVE_SIGALTSTACK p then s1\<lparr>stack := (stack s1)\<lparr>ss_sp := None\<rparr>\<rparr> else s1)"

definition faulthandler_unload :: "platform \<Rightarrow> state \<Rightarrow> state" where
  "faulthandler_unload p s =
     (let s1 = faulthandler_cancel_dumpbacktrace_later s in
      if HAVE_SIGALTSTACK p \<and> ss_sp (stack s1) \<noteq> None
      then s1\<lparr>stack := (stack s1)\<lparr>ss_sp := None\<rparr>\<rparr>
      else s1)"

text \<open>Line 167.\<close>

definition enable_set_flag :: "state \<Rightarrow> state" where
  "enable_set_flag s = s\<lparr>faulthandler_enabled := 1\<rparr>"

text \<open>Lines 169 to 179.\<close>

definition enable_alloc_stack :: "platform \<Rightarrow> env \<Rightarrow> state \<Rightarrow> state" where
  "enable_alloc_stack p e s =
     (if HAVE_SIGALTSTACK p
      then
        (let s1 = (log_call (Malloc_call (SIGSTKSZ p)) s)
                    \<lparr>stack := \<lparr>ss_sp = malloc_result e, ss_flags = SS_ONSTACK p,
                               ss_size = SIGSTKSZ p\<rparr>\<rparr>
         in if ss_sp (stack s1) \<noteq> None then os_sigaltstack e (stack s1) s1 else s1)
      else s)"

text \<open>Line 180.\<close>

definition enable_atexit :: "state \<Rightarrow> state" where
  "enable_atexit s = log_call AtExit_call s"

text \<open>The body of the loop of lines 182 to 198, for entry \<open>i\<close>.\<close>

definition signal_name :: "platform \<Rightarrow> int \<Rightarrow> string" where
  "signal_name p sg =
     (if sg = SIGFPE p then ''Floating point exception''
      else if SIGBUS p = Some sg then ''Bus error''
      else if SIGILL p = Some sg then ''Illegal instruction''
      else ''Segmentation fault'')"

definition enable_populate :: "platform \<Rightarrow> nat \<Rightarrow> state \<Rightarrow> state" where
  "enable_populate p i s =
     (let sg = fault_signals p ! i in
      set_handler i
        ((fault_handlers s ! i)\<lparr>signum := sg, enabled := 0, name := Some (signal_name p sg)\<rparr>) s)"

text \<open>The body of the loop of lines 200 to 214, for entry \<open>i\<close>; \<open>fatal_action\<close> is
  the \<^verbatim>\<open>action\<close> of lines 203 to 205.\<close>

definition fatal_action :: "platform \<Rightarrow> Py_sighandler_t" where
  "fatal_action p =
     Sigaction \<lparr>sa_handler = faulthandler_fatal_error_fn, sa_mask = [],
                sa_flags = SA_ONSTACK p\<rparr>"

definition enable_install :: "platform \<Rightarrow> nat \<Rightarrow> state \<Rightarrow> state" where
  "enable_install p i s =
     (let h = fault_handlers s ! i in
      if HAVE_SIGACTION p
      then
        (let action = fatal_action p;
             (old, s1) = os_sigaction p (signum h) action s
         in case old of
              None \<Rightarrow> s1
            | Some prev \<Rightarrow> set_handler i (h\<lparr>previous := prev, enabled := 1\<rparr>) s1)
      else
        (let (prev, s1) = os_signal p (signum h) faulthandler_fatal_error_fn s;
             h1 = h\<lparr>previous := Sighandler prev\<rparr>
         in set_handler i (if prev \<noteq> SIG_ERR then h1\<lparr>enabled := 1\<rparr> else h1) s1))"

text \<open>\<^verbatim>\<open>faulthandler_enable\<close>, statement by statement: the result and the states after
  each statement that was executed (none when the handler is already enabled).\<close>

definition faulthandler_enable_run ::
  "platform \<Rightarrow> env \<Rightarrow> state \<Rightarrow> (pyerr + unit) \<times> state list" where
  "faulthandler_enable_run p e s =
     (if faulthandler_enabled s \<noteq> 0 then (Inr (), [])
      else
        (let (out_fd, s1) = get_stderr e s;
             s2 = s1\<lparr>fatal_error_fd := out_fd\<rparr>
         in if fatal_error_fd s2 = - 1
            then (Inl (RuntimeError
                         ''unable to get the file descriptor of the standard error''),
                  [s2])
            else
              (Inr (),
               s2 # run_steps
                      ([enable_set_flag, enable_alloc_stack p e, enable_atexit]
                       @ map (enable_populate p) [0..<NFAULT_SIGNALS p]
                       @ map (enable_install p) [0..<NFAULT_SIGNALS p]) s2)))"

definition faulthandler_enable :: "platform \<Rightarrow> env \<Rightarrow> state \<Rightarrow> (pyerr + unit) \<times> state" where
  "faulthandler_enable p e s =
     (let (r, sts) = faulthandler_enable_run p e s in (r, last (s # sts)))"

text \<open>The body of the loop of lines 228 to 238, for entry \<open>i\<close>.\<close>

definition disable_entry :: "platform \<Rightarrow> nat \<Rightarrow> state \<Rightarrow> state" where
  "disable_entry p i s =
     (if enabled (fault_handlers s ! i) = 0 then s
      else clear_enabled i (restore_previous p i s))"

definition faulthandler_disable :: "platform \<Rightarrow> state \<Rightarrow> (pyerr + unit) \<times> state" where
  "faulthandler_disable p s =
     (if faulthandler_enabled s = 0 then (Inr (), s)
      else (Inr (),
            fold (disable_entry p) [0..<NFAULT_SIGNALS p] (s\<lparr>faulthandler_enabled := 0\<rparr>)))"

definition faulthandler_isenabled :: "state \<Rightarrow> bool" where
  "faulthandler_isenabled s = (faulthandler_enabled s \<noteq> 0)"

section \<open>What the claims speak of\<close>

text \<open>The calls made between two states, the calls that write a diagnostic, the text
  written, and the calls by which \<^verbatim>\<open>faulthandler_enable\<close> allocates or installs.\<close>

definition new_calls :: "state \<Rightarrow> state \<Rightarrow> os_call list" where
  "new_calls s s' = drop (length (os_calls s)) (os_calls s')"

fun is_diagnostic :: "os_call \<Rightarrow> bool" where
  "is_diagnostic (Write_call out_fd str) = True"
| "is_diagnostic (Dump_backtrace_call out_fd) = True"
| "is_diagnostic (Dump_backtrace_threads_call out_fd t) = True"
| "is_diagnostic c = False"

fun written_text :: "os_call list \<Rightarrow> string" where
  "written_text [] = []"
| "written_text (Write_call out_fd str # cs) = str @ written_text cs"
| "written_text (c # cs) = written_text cs"

fun is_install_attempt :: "os_call \<Rightarrow> bool" where
  "is_install_attempt (Malloc_call n) = True"
| "is_install_attempt (Sigaltstack_call st) = True"
| "is_install_attempt (Sigaction_call sg act) = True"
| "is_install_attempt (Signal_call sg h) = True"
| "is_install_attempt c = False"

definition diagnostic_text :: "platform \<Rightarrow> int \<Rightarrow> state \<Rightarrow> string option" where
  "diagnostic_text p sg s =
     (case faulthandler_fatal_error p sg s of
        None \<Rightarrow> None
      | Some s' \<Rightarrow> Some (written_text (new_calls s s')))"

text \<open>The disposition a signal has once \<open>prev\<close> was given back to the kernel: \<open>prev\<close>
  itself through \<^verbatim>\<open>sigaction\<close>, its handler through \<^verbatim>\<open>signal\<close>.\<close>

definition restored_disposition :: "platform \<Rightarrow> Py_sighandler_t \<Rightarrow> Py_sighandler_t" where
  "restored_disposition p prev =
     (if HAVE_SIGACTION p then prev else signal_disposition p (handler_of prev))"

text \<open>The call by which lines 232 to 236 give the previous handler of an entry back.\<close>

definition restore_call :: "platform \<Rightarrow> fault_handler_t \<Rightarrow> os_call" where
  "restore_call p h =
     (if HAVE_SIGACTION p then Sigaction_call (signum h) (previous h)
      else Signal_call (signum h) (handler_of (previous h)))"

text \<open>What the kernel's dispositions become when the previous handler of an enabled
  entry is given back.\<close>

definition give_back ::
  "platform \<Rightarrow> fault_handler_t \<Rightarrow> (int \<Rightarrow> Py_sighandler_t) \<Rightarrow> (int \<Rightarrow> Py_sighandler_t)" where
  "give_back p h d =
     (if enabled h \<noteq> 0 \<and> sig_valid p (signum h)
      then d(signum h := restored_disposition p (previous h)) else d)"

text \<open>The table as the first loop of \<^verbatim>\<open>faulthandler_enable\<close> leaves it: entry \<open>i\<close> has
  the signal \<open>i\<close> of \<^verbatim>\<open>fault_signals\<close> and its name.\<close>

definition table_populated :: "platform \<Rightarrow> state \<Rightarrow> bool" where
  "table_populated p s =
     (map (\<lambda>h. (signum h, name h)) (fault_handlers s)
        = map (\<lambda>sg. (sg, Some (signal_name p sg))) (fault_signals p))"

section \<open>A concrete platform and concrete states\<close>

text \<open>Linux on x86: every branch of the preprocessor taken, and the kernel refusing a
  disposition for the numbers out of range and for \<^verbatim>\<open>SIGKILL\<close> and \<^verbatim>\<open>SIGSTOP\<close>.\<close>

definition linux :: platform where
  "linux =
     \<lparr>HAVE_SIGACTION = True, HAVE_SIGALTSTACK = True, SIGBUS = Some 7, SIGILL = Some 4,
      SIGFPE = 8, SIGSEGV = 11, SIGALRM = 14, SA_ONSTACK = 0x08000000, SS_ONSTACK = 1,
      SIGSTKSZ = 8192, sig_valid = (\<lambda>sg. 1 \<le> sg \<and> sg \<le> 64 \<and> sg \<noteq> 9 \<and> sg \<noteq> 19),
      signal_flags = 0x10000000\<rparr>"

text \<open>The same platform with a kernel that refuses every change of disposition.\<close>

definition refusing :: platform where
  "refusing = linux\<lparr>sig_valid := (\<lambda>sg. False)\<rparr>"

definition answers :: env where
  "answers =
     \<lparr>stderr_fileno = 2, malloc_result = Some 4096, sigaltstack_ok = True,
      this_thread_state = Some 1, dump_threads_errmsg = None\<rparr>"

definition closed_stderr :: env where
  "closed_stderr = answers\<lparr>stderr_fileno := - 1\<rparr>"

definition no_thread_state :: env where
  "no_thread_state = answers\<lparr>this_thread_state := None\<rparr>"

definition no_memory :: env where
  "no_memory = answers\<lparr>malloc_result := None\<rparr>"

definition dump_fails :: env where
  "dump_fails = answers\<lparr>dump_threads_errmsg := Some ''unable to get the interpreter''\<rparr>"

text \<open>The state after \<^verbatim>\<open>enable()\<close> in a fresh process on Linux.\<close>

definition enabled_linux :: state where
  "enabled_linux =
     \<lparr>faulthandler_enabled = 1,
      fatal_error_fd = 2,
      stack = \<lparr>ss_sp = Some 4096, ss_flags = 1, ss_size = 8192\<rparr>,
      fault_handlers =
        [\<lparr>signum = 7, enabled = 1, name = Some ''Bus error'',
          previous = zero_previous linux\<rparr>,
         \<lparr>signum = 4, enabled = 1, name = Some ''Illegal instruction'',
          previous = zero_previous linux\<rparr>,
         \<lparr>signum = 8, enabled = 1, name = Some ''Floating point exception'',
          previous = zero_previous linux\<rparr>,
         \<lparr>signum = 11, enabled = 1, name = Some ''Segmentation fault'',
          previous = zero_previous linux\<rparr>],
      fault_alarm = \<lparr>fd = 0, delay = 0, repeat = 0, all_threads = 0\<rparr>,
      sig_disposition =
        (\<lambda>sg. zero_previous linux)
          (7 := fatal_action linux, 4 := fatal_action linux,
           8 := fatal_action linux, 11 := fatal_action linux),
      installed_altstack = Some \<lparr>ss_sp = Some 4096, ss_flags = 1, ss_size = 8192\<rparr>,
      pending_alarm = 0,
      os_calls =
        [Fflush_stderr, Malloc_call 8192,
         Sigaltstack_call \<lparr>ss_sp = Some 4096, ss_flags = 1, ss_size = 8192\<rparr>,
         AtExit_call,
         Sigaction_call 7 (fatal_action linux), Sigaction_call 4 (fatal_action linux),
         Sigaction_call 8 (fatal_action linux), Sigaction_call 11 (fatal_action linux)]\<rparr>"

text \<open>The state after \<^verbatim>\<open>dumpbacktrace_later(2, repeat=True, all_threads=True)\<close> in
  \<open>enabled_linux\<close>, and the same without \<^verbatim>\<open>repeat\<close>.\<close>

definition armed_linux :: state where
  "armed_linux =
     enabled_linux
       \<lparr>fault_alarm := \<lparr>fd = 2, delay = 2, repeat = 1, all_threads = 1\<rparr>,
        sig_disposition :=
          (sig_disposition enabled_linux)
            (14 := signal_disposition linux faulthandler_alarm_fn),
        pending_alarm := 2,
        os_calls :=
          os_calls enabled_linux
            @ [Fflush_stderr, Signal_call 14 faulthandler_alarm_fn, Alarm_call 2]\<rparr>"

definition armed_once_linux :: state where
  "armed_once_linux =
     armed_linux\<lparr>fault_alarm := \<lparr>fd = 2, delay = 2, repeat = 0, all_threads = 1\<rparr>\<rparr>"

section \<open>Runs and loops\<close>

lemma last_run_steps: "last (s # run_steps fs s) = fold (\<lambda>f. f) fs s"
  by (induction fs arbitrary: s) auto

lemma fold_field: "(\<And>x s. g (f x s) = g s) \<Longrightarrow> g (fold f xs s) = g s"
  by (induction xs arbitrary: s) auto

lemma upt4: "[0..<4] = [0, 1, 2, 3]"
  by (simp add: upt_conv_Cons)

lemma NFAULT_SIGNALS_ge2: "2 \<le> NFAULT_SIGNALS p"
  by (simp add: NFAULT_SIGNALS_def fault_signals_def)

lemma last_fault_signal: "fault_signals p ! (NFAULT_SIGNALS p - 1) = SIGSEGV p"
  by (simp add: NFAULT_SIGNALS_def fault_signals_def nth_append split: option.splits)

section \<open>The steps of enable\<close>

lemma enabled_flag_calls [simp]:
  "faulthandler_enabled (log_call c s) = faulthandler_enabled s"
  "faulthandler_enabled (set_handler i h s) = faulthandler_enabled s"
  "faulthandler_enabled (snd (os_sigaction p sg act s)) = faulthandler_enabled s"
  "faulthandler_enabled (snd (os_signal p sg hf s)) = faulthandler_enabled s"
  "faulthandler_enabled (os_alarm n s) = faulthandler_enabled s"
  "faulthandler_enabled (os_sigaltstack e st s) = faulthandler_enabled s"
  by (simp_all add: log_call_def set_handler_def os_sigaction_def os_signal_def os_alarm_def
        os_sigaltstack_def Let_def)

lemma enabled_flag_steps [simp]:
  "faulthandler_enabled (enable_alloc_stack p e s) = faulthandler_enabled s"
  "faulthandler_enabled (enable_atexit s) = faulthandler_enabled s"
  "faulthandler_enabled (enable_populate p i s) = faulthandler_enabled s"
  "faulthandler_enabled (enable_install p i s) = faulthandler_enabled s"
  by (simp_all add: enable_alloc_stack_def enable_atexit_def enable_populate_def
        enable_install_def os_sigaction_def os_signal_def Let_def)

lemma enable_run_success:
  assumes "faulthandler_enabled s = 0" and "stderr_fileno e \<noteq> - 1"
  shows "faulthandler_enable_run p e s =
     (Inr (),
      (log_call Fflush_stderr s)\<lparr>fatal_error_fd := stderr_fileno e\<rparr> #
      run_steps
        ([enable_set_flag, enable_alloc_stack p e, enable_atexit]
         @ map (enable_populate p) [0..<NFAULT_SIGNALS p]
         @ map (enable_install p) [0..<NFAULT_SIGNALS p])
        ((log_call Fflush_stderr s)\<lparr>fatal_error_fd := stderr_fileno e\<rparr>))"
  using assms by (simp add: faulthandler_enable_run_def get_stderr_def Let_def)

lemma enable_final:
  assumes "faulthandler_enabled s = 0" and "stderr_fileno e \<noteq> - 1"
  shows "faulthandler_enable p e s =
     (Inr (),
      fold (enable_install p) [0..<NFAULT_SIGNALS p]
        (fold (enable_populate p) [0..<NFAULT_SIGNALS p]
          (enable_atexit (enable_alloc_stack p e (enable_set_flag
             ((log_call Fflush_stderr s)\<lparr>fatal_error_fd := stderr_fileno e\<rparr>))))))"
proof -
  let ?s2 = "(log_call Fflush_stderr s)\<lparr>fatal_error_fd := stderr_fileno e\<rparr>"
  let ?fs = "[enable_set_flag, enable_alloc_stack p e, enable_atexit]
             @ map (enable_populate p) [0..<NFAULT_SIGNALS p]
             @ map (enable_install p) [0..<NFAULT_SIGNALS p]"
  have "last (s # ?s2 # run_steps ?fs ?s2) = fold (\<lambda>f. f) ?fs ?s2"
    by (simp only: last_run_steps last_ConsR list.distinct not_False_eq_True)
  also have "\<dots> = fold (enable_install p) [0..<NFAULT_SIGNALS p]
        (fold (enable_populate p) [0..<NFAULT_SIGNALS p]
          (enable_atexit (enable_alloc_stack p e (enable_set_flag ?s2))))"
    by (simp add: fold_map comp_def)
  finally show ?thesis
    by (simp only: faulthandler_enable_def enable_run_success [OF assms] Let_def prod.case)
qed

lemma enable_failed:
  "faulthandler_enabled s = 0 \<Longrightarrow> stderr_fileno e = - 1 \<Longrightarrow>
   faulthandler_enable p e s =
     (Inl (RuntimeError ''unable to get the file descriptor of the standard error''),
      (log_call Fflush_stderr s)\<lparr>fatal_error_fd := - 1\<rparr>)"
  by (simp add: faulthandler_enable_def faulthandler_enable_run_def get_stderr_def Let_def)

lemma enable_already:
  "faulthandler_enabled s \<noteq> 0 \<Longrightarrow> faulthandler_enable p e s = (Inr (), s)"
  by (simp add: faulthandler_enable_def faulthandler_enable_run_def)

lemma enable_success_flag:
  assumes ok: "fst (faulthandler_enable p e s) = Inr ()"
  shows "faulthandler_enabled (snd (faulthandler_enable p e s)) \<noteq> 0"
proof (cases "faulthandler_enabled s = 0")
  case False
  then show ?thesis by (simp add: enable_already)
next
  case True
  with ok have "stderr_fileno e \<noteq> - 1"
    by (auto simp: enable_failed)
  with True show ?thesis
    by (simp add: enable_final fold_field enable_set_flag_def)
qed

lemma enable_linux:
  "faulthandler_enable linux answers (static_state linux) = (Inr (), enabled_linux)"
  by (simp add: enable_final static_state_def linux_def answers_def NFAULT_SIGNALS_def
      fault_signals_def upt4 enable_install_def enable_populate_def enable_atexit_def
      enable_alloc_stack_def enable_set_flag_def log_call_def os_sigaction_def
      os_sigaltstack_def set_handler_def zero_handler_def zero_previous_def signal_name_def
      Let_def enabled_linux_def fatal_action_def)

lemma arm_linux:
  "faulthandler_dumpbacktrace_later linux answers (Some (2, 1, 1)) enabled_linux
     = (Inr (), armed_linux)"
  by (simp add: faulthandler_dumpbacktrace_later_def get_stderr_def os_signal_def os_alarm_def
      log_call_def answers_def linux_def armed_linux_def enabled_linux_def Let_def
      signal_disposition_def fatal_action_def zero_previous_def)

section \<open>The lookup of the fatal fault handler\<close>

lemma scan_no_match:
  "\<forall>k. i \<le> k \<and> k < NFAULT_SIGNALS p \<longrightarrow> signum (hs ! k) \<noteq> sg \<Longrightarrow>
   scan_handlers p hs sg i h = (if i < NFAULT_SIGNALS p then Some (NFAULT_SIGNALS p - 1) else h)"
proof (induction p hs sg i h rule: scan_handlers.induct)
  case (1 p hs sg i handler)
  show ?case
  proof (cases "i < NFAULT_SIGNALS p")
    case False
    then show ?thesis by (simp add: scan_handlers.simps)
  next
    case True
    with "1.prems" have ne: "signum (hs ! i) \<noteq> sg" by simp
    have "scan_handlers p hs sg (Suc i) (Some i) =
            (if Suc i < NFAULT_SIGNALS p then Some (NFAULT_SIGNALS p - 1) else Some i)"
      using "1.IH" [OF True ne] "1.prems" by simp
    with True ne show ?thesis
      by (subst scan_handlers.simps) (auto simp: less_Suc_eq)
  qed
qed

lemma scan_first_match:
  "i \<le> j \<Longrightarrow> j < NFAULT_SIGNALS p \<Longrightarrow> signum (hs ! j) = sg \<Longrightarrow>
   \<forall>k. i \<le> k \<and> k < j \<longrightarrow> signum (hs ! k) \<noteq> sg \<Longrightarrow>
   scan_handlers p hs sg i h = Some j"
proof (induction p hs sg i h rule: scan_handlers.induct)
  case (1 p hs sg i handler)
  from "1.prems" have lt: "i < NFAULT_SIGNALS p" by simp
  show ?case
  proof (cases "i = j")
    case True
    with "1.prems" lt show ?thesis by (subst scan_handlers.simps) simp
  next
    case False
    with "1.prems" have ne: "signum (hs ! i) \<noteq> sg" and le: "Suc i \<le> j" by auto
    have "scan_handlers p hs sg (Suc i) (Some i) = Some j"
      using "1.IH" [OF lt ne le] "1.prems" by simp
    with lt ne show ?thesis by (subst scan_handlers.simps) simp
  qed
qed

lemma scan_bound:
  "scan_handlers p hs sg i h = Some j \<Longrightarrow> h = Some j \<or> j < NFAULT_SIGNALS p"
proof (induction p hs sg i h rule: scan_handlers.induct)
  case (1 p hs sg i handler)
  show ?case
  proof (cases "i < NFAULT_SIGNALS p")
    case False
    with "1.prems" show ?thesis by (simp add: scan_handlers.simps)
  next
    case True
    show ?thesis
    proof (cases "signum (hs ! i) = sg")
      case eq: True
      with True "1.prems" show ?thesis by (simp add: scan_handlers.simps)
    next
      case ne: False
      with True "1.prems" have "scan_handlers p hs sg (Suc i) (Some i) = Some j"
        by (simp add: scan_handlers.simps)
      from "1.IH" [OF True ne this] True show ?thesis by auto
    qed
  qed
qed

lemma scan_in_table: "scan_handlers p hs sg 0 None = Some j \<Longrightarrow> j < NFAULT_SIGNALS p"
  using scan_bound by fastforce

lemma populated_length: "table_populated p s \<Longrightarrow> length (fault_handlers s) = NFAULT_SIGNALS p"
  unfolding table_populated_def NFAULT_SIGNALS_def by (drule arg_cong [where f = length]) simp

lemma populated_nth:
  assumes "table_populated p s" and "i < NFAULT_SIGNALS p"
  shows "signum (fault_handlers s ! i) = fault_signals p ! i"
    and "name (fault_handlers s ! i) = Some (signal_name p (fault_signals p ! i))"
proof -
  have len: "i < length (fault_handlers s)" using assms populated_length by simp
  have "map (\<lambda>h. (signum h, name h)) (fault_handlers s) ! i
          = map (\<lambda>sg. (sg, Some (signal_name p sg))) (fault_signals p) ! i"
    using assms(1) by (simp add: table_populated_def)
  with len assms(2) show "signum (fault_handlers s ! i) = fault_signals p ! i"
    and "name (fault_handlers s ! i) = Some (signal_name p (fault_signals p ! i))"
    by (simp_all add: NFAULT_SIGNALS_def)
qed

lemma linux_length: "length (fault_handlers enabled_linux) = NFAULT_SIGNALS linux"
  by (simp add: enabled_linux_def NFAULT_SIGNALS_def fault_signals_def linux_def)

lemma linux_populated: "table_populated linux enabled_linux"
  by (simp add: table_populated_def enabled_linux_def fault_signals_def linux_def
      signal_name_def)

lemma scan_linux_11: "scan_handlers linux (fault_handlers enabled_linux) 11 0 None = Some 3"
  by (rule scan_first_match)
     (auto simp: linux_def enabled_linux_def NFAULT_SIGNALS_def fault_signals_def nth_Cons'
        less_Suc_eq numeral_3_eq_3)

section \<open>The statements of the fatal fault handler\<close>

lemma restore_previous_calls:
  "os_calls (restore_previous p i s) =
     os_calls s @
       [if HAVE_SIGACTION p
        then Sigaction_call (signum (fault_handlers s ! i)) (previous (fault_handlers s ! i))
        else Signal_call (signum (fault_handlers s ! i))
               (handler_of (previous (fault_handlers s ! i)))]"
  by (simp add: restore_previous_def os_sigaction_def os_signal_def log_call_def Let_def)

lemma restore_previous_disposition:
  "sig_disposition (restore_previous p i s) =
     (if sig_valid p (signum (fault_handlers s ! i))
      then (sig_disposition s)
             (signum (fault_handlers s ! i) :=
                restored_disposition p (previous (fault_handlers s ! i)))
      else sig_disposition s)"
  by (simp add: restore_previous_def os_sigaction_def os_signal_def log_call_def Let_def
      restored_disposition_def)

lemma restore_previous_table [simp]:
  "fault_handlers (restore_previous p i s) = fault_handlers s"
  by (simp add: restore_previous_def os_sigaction_def os_signal_def log_call_def Let_def)

lemma fatal_error_run_unfold:
  assumes len: "length (fault_handlers s) = NFAULT_SIGNALS p"
    and scan: "scan_handlers p (fault_handlers s) sg 0 None = Some i"
    and nm: "name (fault_handlers s ! i) = Some str"
  shows "faulthandler_fatal_error_run p sg s =
     Some [restore_previous p i s,
           clear_enabled i (restore_previous p i s),
           PUTS (fatal_error_fd s) ''Fatal Python error: ''
             (clear_enabled i (restore_previous p i s)),
           PUTS (fatal_error_fd s) str
             (PUTS (fatal_error_fd s) ''Fatal Python error: ''
               (clear_enabled i (restore_previous p i s))),
           PUTS (fatal_error_fd s) [CHR 0x0A, CHR 0x0A]
             (PUTS (fatal_error_fd s) str
               (PUTS (fatal_error_fd s) ''Fatal Python error: ''
                 (clear_enabled i (restore_previous p i s)))),
           faulthandler_dump_backtrace (fatal_error_fd s)
             (PUTS (fatal_error_fd s) [CHR 0x0A, CHR 0x0A]
               (PUTS (fatal_error_fd s) str
                 (PUTS (fatal_error_fd s) ''Fatal Python error: ''
                   (clear_enabled i (restore_previous p i s)))))]"
proof -
  have i: "i < length (fault_handlers s)"
    using scan_in_table [OF scan] len by simp
  have "name (fault_handlers
          (PUTS (fatal_error_fd s) ''Fatal Python error: ''
             (clear_enabled i (restore_previous p i s))) ! i)
        = Some str"
    using i nm by (simp add: PUTS_def log_call_def clear_enabled_def set_handler_def)
  then show ?thesis
    by (simp add: faulthandler_fatal_error_run_def scan PUTS_name_def Let_def)
qed

section \<open>The fatal fault handler: order, message, lookup\<close>

text \<open>
  Claim C1. When the fatal fault handler runs for a delivered monitored signal, it
  restores the entry's previous disposition and clears the entry's enabled flag strictly
  before any diagnostic write and before the backtrace provider is invoked.

  The handler is taken statement by statement. It runs to its end, some state of the run
  has a diagnostic call, and in every state of the run that has one the kernel's
  disposition of the entry's signal is the entry's previous one and the entry's flag is 0.
  The entry is the one the scan finds; the signal was delivered to this handler, so the
  kernel accepts a disposition for it, and the table has the entry's name.
\<close>

theorem fatal_error_restores_first:
  assumes len: "length (fault_handlers s) = NFAULT_SIGNALS p"
    and scan: "scan_handlers p (fault_handlers s) sg 0 None = Some i"
    and valid: "sig_valid p (signum (fault_handlers s ! i))"
    and nm: "name (fault_handlers s ! i) = Some str"
  shows "\<exists>sts. faulthandler_fatal_error_run p sg s = Some sts \<and>
           (\<exists>st \<in> set sts. filter is_diagnostic (new_calls s st) \<noteq> []) \<and>
           (\<forall>st \<in> set sts.
              filter is_diagnostic (new_calls s st) \<noteq> [] \<longrightarrow>
                sig_disposition st (signum (fault_handlers s ! i))
                  = restored_disposition p (previous (fault_handlers s ! i)) \<and>
                enabled (fault_handlers st ! i) = 0)"
proof -
  have i: "i < length (fault_handlers s)"
    using scan_in_table [OF scan] len by simp
  show ?thesis
    using i valid
    by (simp add: fatal_error_run_unfold [OF len scan nm] new_calls_def PUTS_def
        faulthandler_dump_backtrace_def log_call_def clear_enabled_def set_handler_def
        restore_previous_calls restore_previous_disposition)
qed

theorem fatal_error_restores_first_witness:
  "length (fault_handlers enabled_linux) = NFAULT_SIGNALS linux \<and>
   scan_handlers linux (fault_handlers enabled_linux) 11 0 None = Some 3 \<and>
   sig_valid linux (signum (fault_handlers enabled_linux ! 3)) \<and>
   name (fault_handlers enabled_linux ! 3) = Some ''Segmentation fault'' \<and>
   (\<exists>sts. faulthandler_fatal_error_run linux 11 enabled_linux = Some sts \<and>
      (\<exists>st \<in> set sts. filter is_diagnostic (new_calls enabled_linux st) \<noteq> []) \<and>
      (\<forall>st \<in> set sts.
         filter is_diagnostic (new_calls enabled_linux st) \<noteq> [] \<longrightarrow>
           sig_disposition st 11 = zero_previous linux \<and>
           enabled (fault_handlers st ! 3) = 0))"
proof -
  have v: "sig_valid linux (signum (fault_handlers enabled_linux ! 3))"
    by (simp add: enabled_linux_def linux_def)
  have n: "name (fault_handlers enabled_linux ! 3) = Some ''Segmentation fault''"
    by (simp add: enabled_linux_def)
  have sg: "signum (fault_handlers enabled_linux ! 3) = 11"
    and pr: "restored_disposition linux (previous (fault_handlers enabled_linux ! 3))
               = zero_previous linux"
    by (simp_all add: enabled_linux_def restored_disposition_def linux_def)
  show ?thesis
    using fatal_error_restores_first [OF linux_length scan_linux_11 v n]
      linux_length scan_linux_11 v n
    unfolding sg pr by blast
qed

text \<open>
  Claim C4, as amended. When the fatal fault handler fires, the diagnostic it emits to
  the cached output target is, in this order, the fixed message "Fatal Python error: ",
  the display name of the matched entry, two newlines and the backtrace, each by one raw
  write to the descriptor cached in \<^verbatim>\<open>fatal_error_fd\<close>. The message of the claim,
  "Fatal error: ", is not what the source writes.
\<close>

theorem fatal_error_message:
  assumes len: "length (fault_handlers s) = NFAULT_SIGNALS p"
    and scan: "scan_handlers p (fault_handlers s) sg 0 None = Some i"
    and nm: "name (fault_handlers s ! i) = Some str"
  shows "\<exists>s'. faulthandler_fatal_error p sg s = Some s' \<and>
           filter is_diagnostic (new_calls s s') =
             [Write_call (fatal_error_fd s) ''Fatal Python error: '',
              Write_call (fatal_error_fd s) str,
              Write_call (fatal_error_fd s) [CHR 0x0A, CHR 0x0A],
              Dump_backtrace_call (fatal_error_fd s)] \<and>
           diagnostic_text p sg s
             = Some (''Fatal Python error: '' @ str @ [CHR 0x0A, CHR 0x0A])"
  by (simp add: diagnostic_text_def faulthandler_fatal_error_def
      fatal_error_run_unfold [OF len scan nm] new_calls_def PUTS_def
      faulthandler_dump_backtrace_def log_call_def clear_enabled_def set_handler_def
      restore_previous_calls)

theorem fatal_error_message_witness:
  "length (fault_handlers enabled_linux) = NFAULT_SIGNALS linux \<and>
   scan_handlers linux (fault_handlers enabled_linux) 11 0 None = Some 3 \<and>
   name (fault_handlers enabled_linux ! 3) = Some ''Segmentation fault'' \<and>
   (\<exists>s'. faulthandler_fatal_error linux 11 enabled_linux = Some s' \<and>
      filter is_diagnostic (new_calls enabled_linux s') =
        [Write_call 2 ''Fatal Python error: '', Write_call 2 ''Segmentation fault'',
         Write_call 2 [CHR 0x0A, CHR 0x0A], Dump_backtrace_call 2]) \<and>
   diagnostic_text linux 11 enabled_linux
     = Some (''Fatal Python error: Segmentation fault'' @ [CHR 0x0A, CHR 0x0A])"
proof -
  have n: "name (fault_handlers enabled_linux ! 3) = Some ''Segmentation fault''"
    by (simp add: enabled_linux_def)
  have f: "fatal_error_fd enabled_linux = 2"
    by (simp add: enabled_linux_def)
  show ?thesis
    using fatal_error_message [OF linux_length scan_linux_11 n] linux_length scan_linux_11 n
    unfolding f by auto
qed

text \<open>
  The claim C4 as it is written fails: for a segmentation fault on Linux the handler
  returns, and the text it has written does not begin with "Fatal error: ".
\<close>

theorem fatal_error_message_counterexample:
  "map_option (prefix ''Fatal error: '') (diagnostic_text linux 11 enabled_linux) = Some False"
proof -
  have nm: "name (fault_handlers enabled_linux ! 3) = Some ''Segmentation fault''"
    by (simp add: enabled_linux_def)
  have "diagnostic_text linux 11 enabled_linux =
          Some (''Fatal Python error: '' @ ''Segmentation fault'' @ [CHR 0x0A, CHR 0x0A])"
    by (simp add: diagnostic_text_def faulthandler_fatal_error_def
      fatal_error_run_unfold [OF linux_length scan_linux_11 nm] new_calls_def PUTS_def
      faulthandler_dump_backtrace_def log_call_def clear_enabled_def set_handler_def
      restore_previous_calls)
  then show ?thesis by simp
qed

text \<open>
  Claim C5. The entry for the delivered signal is found by a linear scan of the fixed
  table, and for a signal number that matches no entry the scan yields the last entry,
  the one of the segmentation fault, \<^verbatim>\<open>SIGSEGV\<close> being last in \<^verbatim>\<open>fault_signals\<close>.

  On the table as \<^verbatim>\<open>faulthandler_enable\<close> populates it: a monitored signal yields the
  first entry with its number; any other number yields the last index, whose entry has
  the number of \<^verbatim>\<open>SIGSEGV\<close> and the name the source gives that number, which is
  "Segmentation fault" where the platform's signal numbers differ.
\<close>

theorem fatal_error_scan:
  assumes "table_populated p s"
  shows "(sg \<in> set (fault_signals p) \<longrightarrow>
            (\<exists>j < NFAULT_SIGNALS p.
               scan_handlers p (fault_handlers s) sg 0 None = Some j \<and>
               signum (fault_handlers s ! j) = sg \<and>
               (\<forall>k < j. signum (fault_handlers s ! k) \<noteq> sg))) \<and>
         (sg \<notin> set (fault_signals p) \<longrightarrow>
            scan_handlers p (fault_handlers s) sg 0 None = Some (NFAULT_SIGNALS p - 1) \<and>
            fault_handlers s ! (NFAULT_SIGNALS p - 1) = last (fault_handlers s) \<and>
            signum (last (fault_handlers s)) = SIGSEGV p \<and>
            name (last (fault_handlers s)) = Some (signal_name p (SIGSEGV p)) \<and>
            (SIGSEGV p \<noteq> SIGFPE p \<and> SIGBUS p \<noteq> Some (SIGSEGV p) \<and>
             SIGILL p \<noteq> Some (SIGSEGV p) \<longrightarrow>
               name (last (fault_handlers s)) = Some ''Segmentation fault''))"
proof (intro conjI impI)
  let ?hs = "fault_handlers s" and ?n = "NFAULT_SIGNALS p"
  have len: "length ?hs = ?n" using assms by (rule populated_length)
  have sig: "\<And>i. i < ?n \<Longrightarrow> signum (?hs ! i) = fault_signals p ! i"
    using assms by (rule populated_nth)
  {
    assume "sg \<in> set (fault_signals p)"
    then have ex: "\<exists>j. j < ?n \<and> signum (?hs ! j) = sg"
      using sig by (auto simp: in_set_conv_nth NFAULT_SIGNALS_def)
    define j where "j = (LEAST j. j < ?n \<and> signum (?hs ! j) = sg)"
    have j: "j < ?n \<and> signum (?hs ! j) = sg"
      unfolding j_def using ex by (rule LeastI_ex)
    have least: "\<forall>k < j. signum (?hs ! k) \<noteq> sg"
    proof (intro allI impI notI)
      fix k assume "k < j" and "signum (?hs ! k) = sg"
      with j have "k < ?n \<and> signum (?hs ! k) = sg" by simp
      then have "j \<le> k" unfolding j_def by (rule Least_le)
      with \<open>k < j\<close> show False by simp
    qed
    have "scan_handlers p ?hs sg 0 None = Some j"
      using j least by (intro scan_first_match) auto
    with j least
    show "\<exists>j < ?n. scan_handlers p ?hs sg 0 None = Some j \<and> signum (?hs ! j) = sg \<and>
            (\<forall>k < j. signum (?hs ! k) \<noteq> sg)"
      by blast
  }
  have pos: "0 < ?n" using NFAULT_SIGNALS_ge2 [of p] by simp
  have "?hs \<noteq> []" using len pos by auto
  then have last: "?hs ! (?n - 1) = last ?hs"
    using len by (simp add: last_conv_nth)
  show "?hs ! (?n - 1) = last ?hs" by (rule last)
  show sigl: "signum (last ?hs) = SIGSEGV p"
    using sig [of "?n - 1"] pos last last_fault_signal by simp
  show nml: "name (last ?hs) = Some (signal_name p (SIGSEGV p))"
    using populated_nth(2) [OF assms, of "?n - 1"] pos last last_fault_signal by simp
  {
    assume "SIGSEGV p \<noteq> SIGFPE p \<and> SIGBUS p \<noteq> Some (SIGSEGV p) \<and>
            SIGILL p \<noteq> Some (SIGSEGV p)"
    with nml show "name (last ?hs) = Some ''Segmentation fault''"
      by (simp add: signal_name_def)
  }
  {
    assume "sg \<notin> set (fault_signals p)"
    then have "\<forall>k. 0 \<le> k \<and> k < ?n \<longrightarrow> signum (?hs ! k) \<noteq> sg"
      using sig by (auto simp: NFAULT_SIGNALS_def)
    then show "scan_handlers p ?hs sg 0 None = Some (?n - 1)"
      using pos by (simp add: scan_no_match)
  }
qed

theorem fatal_error_scan_witness:
  "table_populated linux enabled_linux \<and>
   8 \<in> set (fault_signals linux) \<and>
   scan_handlers linux (fault_handlers enabled_linux) 8 0 None = Some 2 \<and>
   14 \<notin> set (fault_signals linux) \<and>
   scan_handlers linux (fault_handlers enabled_linux) 14 0 None = Some 3 \<and>
   signum (last (fault_handlers enabled_linux)) = 11 \<and>
   SIGSEGV linux \<noteq> SIGFPE linux \<and> SIGBUS linux \<noteq> Some (SIGSEGV linux) \<and>
   SIGILL linux \<noteq> Some (SIGSEGV linux) \<and>
   name (last (fault_handlers enabled_linux)) = Some ''Segmentation fault''"
proof -
  have m: "8 \<in> set (fault_signals linux)" and n: "14 \<notin> set (fault_signals linux)"
    and d: "SIGSEGV linux \<noteq> SIGFPE linux \<and> SIGBUS linux \<noteq> Some (SIGSEGV linux) \<and>
            SIGILL linux \<noteq> Some (SIGSEGV linux)"
    and sv: "SIGSEGV linux = 11" and nf: "NFAULT_SIGNALS linux - 1 = 3"
    by (simp_all add: fault_signals_def linux_def NFAULT_SIGNALS_def)
  from fatal_error_scan [OF linux_populated, of 8] m
  obtain j where j: "scan_handlers linux (fault_handlers enabled_linux) 8 0 None = Some j"
    and j8: "signum (fault_handlers enabled_linux ! j) = 8"
    and jn: "j < NFAULT_SIGNALS linux"
    by blast
  from jn have "j < 4" by (simp add: NFAULT_SIGNALS_def fault_signals_def linux_def)
  then have "j = 0 \<or> j = 1 \<or> j = 2 \<or> j = 3" by auto
  with j8 have "j = 2"
    by (auto simp: enabled_linux_def)
  with j have s8: "scan_handlers linux (fault_handlers enabled_linux) 8 0 None = Some 2"
    by simp
  from fatal_error_scan [OF linux_populated, of 14] n d
  have c: "scan_handlers linux (fault_handlers enabled_linux) 14 0 None
             = Some (NFAULT_SIGNALS linux - 1) \<and>
           signum (last (fault_handlers enabled_linux)) = SIGSEGV linux \<and>
           name (last (fault_handlers enabled_linux)) = Some ''Segmentation fault''"
    by blast
  show ?thesis
    using c [unfolded nf sv] m n d s8 linux_populated by simp
qed

section \<open>The controller: enable\<close>

text \<open>
  Claim C2. \<^verbatim>\<open>enable()\<close> is idempotent: when the state is already Enabled a second
  call returns without modifying the handler table, the cached output target, the
  alternate stack or any other state, so that calling it twice leaves the table as
  calling it once does.

  An enabled state is returned as it is, whatever the outside would answer; and after a
  call that succeeded, a second call, whatever the outside answers to it, returns the
  state of the first.
\<close>

theorem enable_idempotent:
  "(faulthandler_enabled s \<noteq> 0 \<longrightarrow> faulthandler_enable p e s = (Inr (), s)) \<and>
   (fst (faulthandler_enable p e s) = Inr () \<longrightarrow>
      faulthandler_enable p e' (snd (faulthandler_enable p e s))
        = (Inr (), snd (faulthandler_enable p e s)))"
  using enable_already enable_success_flag by blast

theorem enable_idempotent_witness:
  "faulthandler_enabled enabled_linux \<noteq> 0 \<and>
   faulthandler_enable linux closed_stderr enabled_linux = (Inr (), enabled_linux) \<and>
   fst (faulthandler_enable linux answers (static_state linux)) = Inr () \<and>
   faulthandler_enable linux closed_stderr
       (snd (faulthandler_enable linux answers (static_state linux)))
     = (Inr (), enabled_linux)"
proof -
  have en: "faulthandler_enabled enabled_linux \<noteq> 0"
    by (simp add: enabled_linux_def)
  show ?thesis
    using enable_idempotent [where s = enabled_linux and p = linux and e = closed_stderr]
      enable_idempotent [where s = "static_state linux" and p = linux and e = answers
        and e' = closed_stderr] en
    by (simp add: enable_linux)
qed

lemma fatal_error_fd_steps [simp]:
  "fatal_error_fd (enable_set_flag s) = fatal_error_fd s"
  "fatal_error_fd (enable_alloc_stack p e s) = fatal_error_fd s"
  "fatal_error_fd (enable_atexit s) = fatal_error_fd s"
  "fatal_error_fd (enable_populate p i s) = fatal_error_fd s"
  "fatal_error_fd (enable_install p i s) = fatal_error_fd s"
  by (simp_all add: enable_set_flag_def enable_alloc_stack_def enable_atexit_def
        enable_populate_def enable_install_def os_sigaction_def os_signal_def
        os_sigaltstack_def log_call_def set_handler_def Let_def)

text \<open>A call that resolves its target replaces the cached descriptor, whatever it was.\<close>

lemma enable_replaces_fd:
  assumes "faulthandler_enabled s = 0" and "stderr_fileno e \<noteq> - 1"
  shows "fatal_error_fd (snd (faulthandler_enable p e s)) = stderr_fileno e"
  by (simp add: enable_final [OF assms] fold_field log_call_def)

text \<open>
  Claim C7. When \<^verbatim>\<open>enable()\<close> is called in the Disabled state and resolving the
  diagnostic output target fails, the call fails with a resource error and makes no state
  change: the state stays Disabled, no alternate stack is allocated, and no fault handler
  is installed.

  The call returns the \<^verbatim>\<open>RuntimeError\<close> of line 161. The flag of the module is still 0
  and \<^verbatim>\<open>isenabled()\<close> false; the stack of the module and the alternate stack of the
  process are as they were; the table, the kernel's dispositions, the configuration of the
  watchdog and the pending alarm are as they were; and the only call made is the flush of
  \<^verbatim>\<open>stderr\<close> in \<^verbatim>\<open>get_stderr\<close>: no allocation, no \<^verbatim>\<open>sigaltstack\<close>, no installation.
  The state after the call is written out in full. It differs from the state before in
  the record of that flush and in \<^verbatim>\<open>fatal_error_fd\<close>, the private cache that line 159
  assigns before line 160 tests it; the cache is read by the fatal fault handler only,
  which this call has not installed, and the next call that resolves its target replaces
  it (lines 16 and 17 say so).
\<close>

theorem enable_failure_no_change:
  assumes dis: "faulthandler_enabled s = 0"
    and closed: "stderr_fileno e = - 1"
  shows "fst (faulthandler_enable p e s)
           = Inl (RuntimeError ''unable to get the file descriptor of the standard error'') \<and>
         faulthandler_enabled (snd (faulthandler_enable p e s)) = 0 \<and>
         \<not> faulthandler_isenabled (snd (faulthandler_enable p e s)) \<and>
         stack (snd (faulthandler_enable p e s)) = stack s \<and>
         installed_altstack (snd (faulthandler_enable p e s)) = installed_altstack s \<and>
         fault_handlers (snd (faulthandler_enable p e s)) = fault_handlers s \<and>
         sig_disposition (snd (faulthandler_enable p e s)) = sig_disposition s \<and>
         fault_alarm (snd (faulthandler_enable p e s)) = fault_alarm s \<and>
         pending_alarm (snd (faulthandler_enable p e s)) = pending_alarm s \<and>
         new_calls s (snd (faulthandler_enable p e s)) = [Fflush_stderr] \<and>
         filter is_install_attempt (new_calls s (snd (faulthandler_enable p e s))) = [] \<and>
         snd (faulthandler_enable p e s)
           = s\<lparr>fatal_error_fd := - 1, os_calls := os_calls s @ [Fflush_stderr]\<rparr> \<and>
         (\<forall>e'. stderr_fileno e' \<noteq> - 1 \<longrightarrow>
            fatal_error_fd (snd (faulthandler_enable p e' (snd (faulthandler_enable p e s))))
              = stderr_fileno e')"
proof -
  have s': "snd (faulthandler_enable p e s)
              = s\<lparr>fatal_error_fd := - 1, os_calls := os_calls s @ [Fflush_stderr]\<rparr>"
    using dis closed by (simp add: enable_failed log_call_def)
  have still: "faulthandler_enabled (snd (faulthandler_enable p e s)) = 0"
    using dis by (simp add: s')
  have next_call: "\<forall>e'. stderr_fileno e' \<noteq> - 1 \<longrightarrow>
      fatal_error_fd (snd (faulthandler_enable p e' (snd (faulthandler_enable p e s))))
        = stderr_fileno e'"
    using enable_replaces_fd [OF still] by blast
  have "fst (faulthandler_enable p e s)
          = Inl (RuntimeError ''unable to get the file descriptor of the standard error'')"
    using dis closed by (simp add: enable_failed)
  moreover have "new_calls s (snd (faulthandler_enable p e s)) = [Fflush_stderr]"
    by (simp add: s' new_calls_def)
  ultimately show ?thesis
    using dis next_call s' by (simp add: faulthandler_isenabled_def)
qed

theorem enable_failure_no_change_witness:
  "faulthandler_enabled (static_state linux) = 0 \<and>
   stderr_fileno closed_stderr = - 1 \<and>
   fst (faulthandler_enable linux closed_stderr (static_state linux))
     = Inl (RuntimeError ''unable to get the file descriptor of the standard error'') \<and>
   faulthandler_enabled (snd (faulthandler_enable linux closed_stderr (static_state linux))) = 0 \<and>
   stack (snd (faulthandler_enable linux closed_stderr (static_state linux)))
     = \<lparr>ss_sp = None, ss_flags = 0, ss_size = 0\<rparr> \<and>
   installed_altstack (snd (faulthandler_enable linux closed_stderr (static_state linux)))
     = None \<and>
   sig_disposition (snd (faulthandler_enable linux closed_stderr (static_state linux))) 11
     = zero_previous linux \<and>
   new_calls (static_state linux)
       (snd (faulthandler_enable linux closed_stderr (static_state linux)))
     = [Fflush_stderr] \<and>
   stderr_fileno answers \<noteq> - 1 \<and>
   fatal_error_fd
       (snd (faulthandler_enable linux answers
          (snd (faulthandler_enable linux closed_stderr (static_state linux)))))
     = 2"
proof -
  have d: "faulthandler_enabled (static_state linux) = 0"
    by (simp add: static_state_def)
  have c: "stderr_fileno closed_stderr = - 1"
    by (simp add: closed_stderr_def)
  have a: "stderr_fileno answers = 2"
    by (simp add: answers_def)
  have st: "stack (static_state linux) = \<lparr>ss_sp = None, ss_flags = 0, ss_size = 0\<rparr>"
    "installed_altstack (static_state linux) = None"
    "sig_disposition (static_state linux) 11 = zero_previous linux"
    by (simp_all add: static_state_def)
  let ?s' = "snd (faulthandler_enable linux closed_stderr (static_state linux))"
  note th = enable_failure_no_change [OF d c, of linux]
  from th have r1: "fst (faulthandler_enable linux closed_stderr (static_state linux))
      = Inl (RuntimeError ''unable to get the file descriptor of the standard error'')"
    by (rule conjunct1)
  from th have r2: "faulthandler_enabled ?s' = 0"
    and r3: "stack ?s' = stack (static_state linux)"
    and r4: "installed_altstack ?s' = installed_altstack (static_state linux)"
    and r5: "sig_disposition ?s' = sig_disposition (static_state linux)"
    and r6: "new_calls (static_state linux) ?s' = [Fflush_stderr]"
    by blast+
  from th have "stderr_fileno answers \<noteq> - 1 \<longrightarrow>
      fatal_error_fd (snd (faulthandler_enable linux answers ?s')) = stderr_fileno answers"
    by blast
  then have r7: "fatal_error_fd (snd (faulthandler_enable linux answers ?s')) = 2"
    by (simp add: a)
  show ?thesis
    using r1 r2 r3 r4 r5 r6 r7 d c by (simp add: a st)
qed

section \<open>The watchdog\<close>

text \<open>
  Claim C6. For every delay less than or equal to zero \<^verbatim>\<open>arm_watchdog\<close> fails with a
  validation error before it mutates any state: the configuration of the watchdog, the
  handler of the timer signal and a previously armed timer are left as they were.

  For a delay that is a C int the whole state is returned unchanged, with the
  \<^verbatim>\<open>ValueError\<close> of line 265; a delay that is none is refused by the parser of the
  arguments on line 260, with the state unchanged as well.
\<close>

theorem dumpbacktrace_later_rejects_delay:
  "(sint delay_arg \<le> 0 \<longrightarrow>
      faulthandler_dumpbacktrace_later p e (Some (delay_arg, repeat_arg, all_threads_arg)) s
        = (Inl (ValueError ''delay must be greater than 0''), s)) \<and>
   faulthandler_dumpbacktrace_later p e None s = (Inl ArgumentError, s)"
  by (simp add: faulthandler_dumpbacktrace_later_def)

theorem dumpbacktrace_later_rejects_delay_witness:
  "sint (- 5 :: 32 word) \<le> 0 \<and>
   faulthandler_dumpbacktrace_later linux answers (Some (- 5, 0, 0)) armed_linux
     = (Inl (ValueError ''delay must be greater than 0''), armed_linux) \<and>
   sint (0 :: 32 word) \<le> 0 \<and>
   faulthandler_dumpbacktrace_later linux answers (Some (0, 1, 0)) armed_linux
     = (Inl (ValueError ''delay must be greater than 0''), armed_linux) \<and>
   pending_alarm armed_linux = 2 \<and>
   handler_of (sig_disposition armed_linux 14) = faulthandler_alarm_fn"
proof -
  have a: "pending_alarm armed_linux = 2"
    "handler_of (sig_disposition armed_linux 14) = faulthandler_alarm_fn"
    by (simp_all add: armed_linux_def signal_disposition_def linux_def)
  show ?thesis
    using dumpbacktrace_later_rejects_delay
        [where delay_arg = "- 5" and p = linux and e = answers and repeat_arg = 0
           and all_threads_arg = 0 and s = armed_linux]
      dumpbacktrace_later_rejects_delay
        [where delay_arg = 0 and p = linux and e = answers and repeat_arg = 1
           and all_threads_arg = 0 and s = armed_linux]
      a
    by simp
qed

lemma pos_delay: "0 < sint (d :: 32 word) \<Longrightarrow> d \<noteq> 0"
  by auto

lemma armed_linux_expires:
  "alarm_expires linux e armed_linux
     = Some (faulthandler_alarm e 14 (armed_linux\<lparr>pending_alarm := 0\<rparr>))"
  "alarm_expires linux e armed_once_linux
     = Some (faulthandler_alarm e 14 (armed_once_linux\<lparr>pending_alarm := 0\<rparr>))"
  by (simp_all add: alarm_expires_def armed_once_linux_def armed_linux_def linux_def
      signal_disposition_def)

text \<open>
  Claim C8. On a fire of the watchdog the timer is armed again for another \<^verbatim>\<open>delay\<close>
  seconds exactly when the dump succeeded and \<^verbatim>\<open>repeat\<close> is set; with \<^verbatim>\<open>all_threads\<close>
  a failure of the provider suppresses it even when \<^verbatim>\<open>repeat\<close> is set; and when the
  dump succeeds without \<^verbatim>\<open>repeat\<close> the pending timer is cancelled.

  The fire is the expiry of an armed alarm whose delay is the positive one that
  \<^verbatim>\<open>dumpbacktrace_later\<close> stored. The dump succeeded when it was made and, with
  \<^verbatim>\<open>all_threads\<close>, returned no error message.
\<close>

theorem alarm_rearms_iff:
  assumes "alarm_expires p e s = Some s'"
    and "0 < sint (delay (fault_alarm s))"
  shows "(pending_alarm s' = delay (fault_alarm s) \<longleftrightarrow>
            repeat (fault_alarm s) \<noteq> 0 \<and>
            (if all_threads (fault_alarm s) \<noteq> 0
             then this_thread_state e \<noteq> None \<and> dump_threads_errmsg e = None
             else True)) \<and>
         (all_threads (fault_alarm s) \<noteq> 0 \<and> this_thread_state e \<noteq> None \<and>
          dump_threads_errmsg e \<noteq> None \<longrightarrow>
            pending_alarm s' = 0 \<and> last (os_calls s') = Alarm_call 0) \<and>
         (repeat (fault_alarm s) = 0 \<and>
          (if all_threads (fault_alarm s) \<noteq> 0
           then this_thread_state e \<noteq> None \<and> dump_threads_errmsg e = None
           else True) \<longrightarrow>
            pending_alarm s' = 0 \<and> last (os_calls s') = Alarm_call 0)"
proof -
  have d: "delay (fault_alarm s) \<noteq> 0"
    using assms(2) by (rule pos_delay)
  have s': "s' = faulthandler_alarm e (SIGALRM p) (s\<lparr>pending_alarm := 0\<rparr>)"
    using assms(1) by (simp add: alarm_expires_def split: if_splits)
  show ?thesis
    using d unfolding s'
    by (auto simp: faulthandler_alarm_def alarm_again_def os_alarm_def log_call_def
        faulthandler_cancel_dumpbacktrace_later_def faulthandler_dump_backtrace_def
        faulthandler_dump_backtrace_threads_def Let_def split: option.splits)
qed

theorem alarm_rearms_iff_witness:
  "alarm_expires linux answers armed_linux
     = Some (faulthandler_alarm answers 14 (armed_linux\<lparr>pending_alarm := 0\<rparr>)) \<and>
   0 < sint (delay (fault_alarm armed_linux)) \<and>
   repeat (fault_alarm armed_linux) \<noteq> 0 \<and> all_threads (fault_alarm armed_linux) \<noteq> 0 \<and>
   this_thread_state answers \<noteq> None \<and> dump_threads_errmsg answers = None \<and>
   pending_alarm (faulthandler_alarm answers 14 (armed_linux\<lparr>pending_alarm := 0\<rparr>)) = 2 \<and>
   alarm_expires linux dump_fails armed_linux
     = Some (faulthandler_alarm dump_fails 14 (armed_linux\<lparr>pending_alarm := 0\<rparr>)) \<and>
   this_thread_state dump_fails \<noteq> None \<and> dump_threads_errmsg dump_fails \<noteq> None \<and>
   pending_alarm (faulthandler_alarm dump_fails 14 (armed_linux\<lparr>pending_alarm := 0\<rparr>)) = 0 \<and>
   alarm_expires linux answers armed_once_linux
     = Some (faulthandler_alarm answers 14 (armed_once_linux\<lparr>pending_alarm := 0\<rparr>)) \<and>
   0 < sint (delay (fault_alarm armed_once_linux)) \<and>
   repeat (fault_alarm armed_once_linux) = 0 \<and>
   pending_alarm (faulthandler_alarm answers 14 (armed_once_linux\<lparr>pending_alarm := 0\<rparr>)) = 0"
proof -
  have f: "fault_alarm armed_linux = \<lparr>fd = 2, delay = 2, repeat = 1, all_threads = 1\<rparr>"
    "fault_alarm armed_once_linux = \<lparr>fd = 2, delay = 2, repeat = 0, all_threads = 1\<rparr>"
    by (simp_all add: armed_once_linux_def armed_linux_def)
  have e: "this_thread_state answers \<noteq> None" "dump_threads_errmsg answers = None"
    "this_thread_state dump_fails \<noteq> None" "dump_threads_errmsg dump_fails \<noteq> None"
    by (simp_all add: answers_def dump_fails_def)
  show ?thesis
    using alarm_rearms_iff [OF armed_linux_expires(1) [of answers]]
      alarm_rearms_iff [OF armed_linux_expires(1) [of dump_fails]]
      alarm_rearms_iff [OF armed_linux_expires(2) [of answers]]
      armed_linux_expires e
    by (simp add: f)
qed

text \<open>
  Claim C9. On a fire of the watchdog with \<^verbatim>\<open>all_threads\<close> set, when the thread-local
  lookup of the calling thread's execution context returns none, the fire is a no-op that
  raises no error and emits no diagnostic, and, unless \<^verbatim>\<open>repeat\<close> is set, the timer is
  still cancelled.

  The handler returns the state it was given, so it makes no call at all; the alarm that
  has just expired is the only thing that has changed, and no alarm is pending.
\<close>

theorem alarm_without_thread_state:
  assumes "all_threads (fault_alarm s) \<noteq> 0"
    and "this_thread_state e = None"
    and "alarm_expires p e s = Some s'"
  shows "faulthandler_alarm e sg s = s \<and>
         s' = s\<lparr>pending_alarm := 0\<rparr> \<and>
         os_calls s' = os_calls s \<and>
         (repeat (fault_alarm s) = 0 \<longrightarrow> pending_alarm s' = 0)"
  using assms
  by (auto simp: faulthandler_alarm_def alarm_expires_def split: if_splits)

theorem alarm_without_thread_state_witness:
  "all_threads (fault_alarm armed_once_linux) \<noteq> 0 \<and>
   this_thread_state no_thread_state = None \<and>
   alarm_expires linux no_thread_state armed_once_linux
     = Some (armed_once_linux\<lparr>pending_alarm := 0\<rparr>) \<and>
   faulthandler_alarm no_thread_state 14 armed_once_linux = armed_once_linux \<and>
   repeat (fault_alarm armed_once_linux) = 0 \<and>
   pending_alarm (armed_once_linux\<lparr>pending_alarm := 0\<rparr>) = 0"
proof -
  have a: "all_threads (fault_alarm armed_once_linux) \<noteq> 0"
    and r: "repeat (fault_alarm armed_once_linux) = 0"
    by (simp_all add: armed_once_linux_def)
  have t: "this_thread_state no_thread_state = None"
    by (simp add: no_thread_state_def)
  have x: "alarm_expires linux no_thread_state armed_once_linux
             = Some (armed_once_linux\<lparr>pending_alarm := 0\<rparr>)"
    using a t by (simp add: armed_linux_expires faulthandler_alarm_def)
  show ?thesis
    using alarm_without_thread_state [OF a t x, of 14] a r t x by simp
qed

text \<open>With \<^verbatim>\<open>repeat\<close> set the same holds: the handler returns before line 112, so a
  repeating watchdog whose lookup fails is not armed again.\<close>

lemma alarm_repeat_without_thread_state:
  assumes "all_threads (fault_alarm s) \<noteq> 0"
    and "this_thread_state e = None"
    and "alarm_expires p e s = Some s'"
  shows "pending_alarm s' = 0"
  using assms
  by (auto simp: faulthandler_alarm_def alarm_expires_def split: if_splits)

section \<open>The loops over the table\<close>

lemma map_update_same: "f v = f (xs ! i) \<Longrightarrow> map f (xs[i := v]) = map f xs"
  by (cases "i < length xs") (simp_all add: map_update list_update_same_conv list_update_beyond)

lemma run_steps_invariant:
  "P s \<Longrightarrow> (\<And>f s. f \<in> set fs \<Longrightarrow> P s \<Longrightarrow> P (f s)) \<Longrightarrow> \<forall>st \<in> set (run_steps fs s). P st"
  by (induction fs arbitrary: s) auto

lemma fold_upt_Suc: "fold f [0..<Suc k] s = f k (fold f [0..<k] s)"
  by simp

lemma populate_length [simp]:
  "length (fault_handlers (enable_populate p i s)) = length (fault_handlers s)"
  by (simp add: enable_populate_def set_handler_def Let_def)

lemma install_length [simp]:
  "length (fault_handlers (enable_install p i s)) = length (fault_handlers s)"
  by (simp add: enable_install_def set_handler_def os_sigaction_def os_signal_def log_call_def
      Let_def split: option.splits)

lemma populate_loop_length:
  "length (fault_handlers (fold (enable_populate p) is s)) = length (fault_handlers s)"
  by (rule fold_field) simp

lemma populate_nth:
  "j < length (fault_handlers s) \<Longrightarrow>
   fault_handlers (enable_populate p i s) ! j =
     (if j = i
      then (fault_handlers s ! j)
             \<lparr>signum := fault_signals p ! j, enabled := 0,
              name := Some (signal_name p (fault_signals p ! j))\<rparr>
      else fault_handlers s ! j)"
  by (simp add: enable_populate_def set_handler_def Let_def nth_list_update)

lemma populate_loop_nth:
  "j < length (fault_handlers s) \<Longrightarrow>
   fault_handlers (fold (enable_populate p) [0..<k] s) ! j =
     (if j < k
      then (fault_handlers s ! j)
             \<lparr>signum := fault_signals p ! j, enabled := 0,
              name := Some (signal_name p (fault_signals p ! j))\<rparr>
      else fault_handlers s ! j)"
proof (induction k)
  case 0
  show ?case by simp
next
  case (Suc k)
  have len: "j < length (fault_handlers (fold (enable_populate p) [0..<k] s))"
    using Suc.prems by (simp add: populate_loop_length)
  show ?case
    using Suc len
    by (simp only: fold_upt_Suc) (auto simp: populate_nth less_Suc_eq)
qed

lemma populate_loop_table:
  assumes "length (fault_handlers s) = NFAULT_SIGNALS p"
  shows "map signum (fault_handlers (fold (enable_populate p) [0..<NFAULT_SIGNALS p] s))
           = fault_signals p"
    and "map name (fault_handlers (fold (enable_populate p) [0..<NFAULT_SIGNALS p] s))
           = map (\<lambda>sg. Some (signal_name p sg)) (fault_signals p)"
    and "map enabled (fault_handlers (fold (enable_populate p) [0..<NFAULT_SIGNALS p] s))
           = replicate (NFAULT_SIGNALS p) 0"
  using assms
  by (auto intro!: nth_equalityI
      simp: populate_loop_length populate_loop_nth NFAULT_SIGNALS_def)

lemma install_keeps:
  "map signum (fault_handlers (enable_install p i s)) = map signum (fault_handlers s)"
  "map name (fault_handlers (enable_install p i s)) = map name (fault_handlers s)"
  by (simp_all add: enable_install_def set_handler_def os_sigaction_def os_signal_def
      log_call_def Let_def map_update_same split: option.splits)

lemma install_loop_keeps:
  "map signum (fault_handlers (fold (enable_install p) is s)) = map signum (fault_handlers s)"
  "map name (fault_handlers (fold (enable_install p) is s)) = map name (fault_handlers s)"
  by (rule fold_field, simp add: install_keeps)+

lemma install_refused:
  assumes "\<forall>sg \<in> set (map signum (fault_handlers s)). \<not> sig_valid p sg"
    and "i < length (fault_handlers s)"
  shows "map enabled (fault_handlers (enable_install p i s)) = map enabled (fault_handlers s)"
    and "sig_disposition (enable_install p i s) = sig_disposition s"
    and "installed_altstack (enable_install p i s) = installed_altstack s"
proof -
  have "\<not> sig_valid p (signum (fault_handlers s ! i))"
    using assms by simp
  then show "map enabled (fault_handlers (enable_install p i s)) = map enabled (fault_handlers s)"
    and "sig_disposition (enable_install p i s) = sig_disposition s"
    and "installed_altstack (enable_install p i s) = installed_altstack s"
    by (simp_all add: enable_install_def set_handler_def os_sigaction_def os_signal_def
        log_call_def Let_def map_update_same)
qed

lemma install_loop_refused:
  assumes "\<forall>sg \<in> set (map signum (fault_handlers s)). \<not> sig_valid p sg"
    and "\<forall>i \<in> set is. i < length (fault_handlers s)"
  shows "map enabled (fault_handlers (fold (enable_install p) is s))
           = map enabled (fault_handlers s) \<and>
         sig_disposition (fold (enable_install p) is s) = sig_disposition s \<and>
         installed_altstack (fold (enable_install p) is s) = installed_altstack s"
  using assms
proof (induction "is" arbitrary: s)
  case Nil
  show ?case by simp
next
  case (Cons i "is")
  have i: "i < length (fault_handlers s)" using Cons.prems(2) by simp
  have "\<forall>sg \<in> set (map signum (fault_handlers (enable_install p i s))). \<not> sig_valid p sg"
    using Cons.prems(1) by (simp only: install_keeps)
  moreover have "\<forall>j \<in> set is. j < length (fault_handlers (enable_install p i s))"
    using Cons.prems(2) by simp
  ultimately show ?case
    using Cons.IH [of "enable_install p i s"] install_refused [OF Cons.prems(1) i]
    by simp
qed

lemma enable_populates:
  assumes "faulthandler_enabled s = 0" and "stderr_fileno e \<noteq> - 1"
    and "length (fault_handlers s) = NFAULT_SIGNALS p"
  shows "table_populated p (snd (faulthandler_enable p e s))"
proof -
  let ?s3 = "enable_atexit (enable_alloc_stack p e (enable_set_flag
               ((log_call Fflush_stderr s)\<lparr>fatal_error_fd := stderr_fileno e\<rparr>)))"
  have len: "length (fault_handlers ?s3) = NFAULT_SIGNALS p"
    using assms(3)
    by (simp add: enable_atexit_def enable_alloc_stack_def enable_set_flag_def log_call_def
        os_sigaltstack_def Let_def)
  let ?hs = "fault_handlers (snd (faulthandler_enable p e s))"
  have sg: "map signum ?hs = fault_signals p"
    and nm: "map name ?hs = map (\<lambda>sg. Some (signal_name p sg)) (fault_signals p)"
    by (simp_all add: enable_final [OF assms(1,2)] install_loop_keeps populate_loop_table [OF len])
  have "map (\<lambda>h. (signum h, name h)) ?hs = zip (map signum ?hs) (map name ?hs)"
    by (simp add: zip_map_map map2_map_map [symmetric] zip_same_conv_map)
  also have "\<dots> = map (\<lambda>sg. (sg, Some (signal_name p sg))) (fault_signals p)"
    unfolding sg nm by (simp add: zip_map2 zip_same_conv_map)
  finally show ?thesis by (simp add: table_populated_def)
qed

lemma populate_keeps [simp]:
  "sig_disposition (enable_populate p i s) = sig_disposition s"
  "installed_altstack (enable_populate p i s) = installed_altstack s"
  "stack (enable_populate p i s) = stack s"
  by (simp_all add: enable_populate_def set_handler_def Let_def)

lemma populate_loop_keeps:
  "sig_disposition (fold (enable_populate p) is s) = sig_disposition s"
  "installed_altstack (fold (enable_populate p) is s) = installed_altstack s"
  by (rule fold_field, simp)+

text \<open>
  Claim C10. \<^verbatim>\<open>enable()\<close> marks the global state Enabled before it attempts the
  allocation of the alternate stack or any installation of a handler, so that after a
  call in which the output target was resolved \<^verbatim>\<open>isenabled()\<close> returns true even if
  the allocation and every installation failed, every entry being left with
  \<^verbatim>\<open>enabled == 0\<close>.

  For a call in the Disabled state that resolves its target: the call succeeds and
  \<^verbatim>\<open>isenabled()\<close> is true after it; in every state of the run in which an allocation
  or an installation has been attempted the flag is already 1; and when the allocation
  fails and the kernel refuses every monitored signal, every entry has \<^verbatim>\<open>enabled == 0\<close>
  and neither a disposition nor the alternate stack of the process has changed, while
  \<^verbatim>\<open>isenabled()\<close> is true.
\<close>

theorem enable_sets_flag_first:
  assumes dis: "faulthandler_enabled s = 0"
    and fd_ok: "stderr_fileno e \<noteq> - 1"
    and len: "length (fault_handlers s) = NFAULT_SIGNALS p"
  shows "fst (faulthandler_enable p e s) = Inr () \<and>
         faulthandler_isenabled (snd (faulthandler_enable p e s)) \<and>
         (\<forall>st \<in> set (snd (faulthandler_enable_run p e s)).
            (\<exists>c \<in> set (new_calls s st). is_install_attempt c) \<longrightarrow>
              faulthandler_enabled st = 1) \<and>
         (malloc_result e = None \<and> (\<forall>sg \<in> set (fault_signals p). \<not> sig_valid p sg) \<longrightarrow>
            (\<forall>h \<in> set (fault_handlers (snd (faulthandler_enable p e s))). enabled h = 0) \<and>
            sig_disposition (snd (faulthandler_enable p e s)) = sig_disposition s \<and>
            installed_altstack (snd (faulthandler_enable p e s)) = installed_altstack s \<and>
            faulthandler_isenabled (snd (faulthandler_enable p e s)))"
proof (intro conjI impI)
  let ?s2 = "(log_call Fflush_stderr s)\<lparr>fatal_error_fd := stderr_fileno e\<rparr>"
  let ?s3 = "enable_atexit (enable_alloc_stack p e (enable_set_flag ?s2))"
  let ?rest = "[enable_alloc_stack p e, enable_atexit]
               @ map (enable_populate p) [0..<NFAULT_SIGNALS p]
               @ map (enable_install p) [0..<NFAULT_SIGNALS p]"
  let ?s' = "snd (faulthandler_enable p e s)"
  show "fst (faulthandler_enable p e s) = Inr ()"
    by (simp add: enable_final [OF dis fd_ok])
  show en: "faulthandler_isenabled ?s'"
    by (simp add: faulthandler_isenabled_def enable_final [OF dis fd_ok] fold_field
        enable_set_flag_def)
  have inv: "\<forall>st \<in> set (run_steps ?rest (enable_set_flag ?s2)). faulthandler_enabled st = 1"
    by (rule run_steps_invariant) (auto simp: enable_set_flag_def)
  have run: "snd (faulthandler_enable_run p e s)
               = ?s2 # enable_set_flag ?s2 # run_steps ?rest (enable_set_flag ?s2)"
    by (simp add: enable_run_success [OF dis fd_ok])
  have first: "new_calls s ?s2 = [Fflush_stderr]"
    by (simp add: new_calls_def log_call_def)
  show "\<forall>st \<in> set (snd (faulthandler_enable_run p e s)).
          (\<exists>c \<in> set (new_calls s st). is_install_attempt c) \<longrightarrow> faulthandler_enabled st = 1"
    unfolding run using inv first by (simp add: enable_set_flag_def)
  assume fail: "malloc_result e = None \<and> (\<forall>sg \<in> set (fault_signals p). \<not> sig_valid p sg)"
  let ?s4 = "fold (enable_populate p) [0..<NFAULT_SIGNALS p] ?s3"
  have s3: "length (fault_handlers ?s3) = NFAULT_SIGNALS p"
    "sig_disposition ?s3 = sig_disposition s" "installed_altstack ?s3 = installed_altstack s"
    using len fail
    by (simp_all add: enable_atexit_def enable_alloc_stack_def enable_set_flag_def log_call_def
        Let_def)
  have refused: "\<forall>sg \<in> set (map signum (fault_handlers ?s4)). \<not> sig_valid p sg"
    using fail by (simp only: populate_loop_table(1) [OF s3(1)]) simp
  have idx: "\<forall>i \<in> set [0..<NFAULT_SIGNALS p]. i < length (fault_handlers ?s4)"
    by (simp add: populate_loop_length s3(1))
  have s': "?s' = fold (enable_install p) [0..<NFAULT_SIGNALS p] ?s4"
    by (simp add: enable_final [OF dis fd_ok])
  note loop = install_loop_refused [OF refused idx]
  have "map enabled (fault_handlers ?s') = replicate (NFAULT_SIGNALS p) 0"
    unfolding s' using loop by (simp add: populate_loop_table(3) [OF s3(1)])
  then have "set (map enabled (fault_handlers ?s')) \<subseteq> {0}"
    by (simp only: set_replicate_conv_if) simp
  then show "\<forall>h \<in> set (fault_handlers ?s'). enabled h = 0"
    by auto
  show "sig_disposition ?s' = sig_disposition s"
    unfolding s' using loop by (simp add: populate_loop_keeps s3)
  show "installed_altstack ?s' = installed_altstack s"
    unfolding s' using loop by (simp add: populate_loop_keeps s3)
  show "faulthandler_isenabled ?s'" by (rule en)
qed

theorem enable_sets_flag_first_witness:
  "faulthandler_enabled (static_state refusing) = 0 \<and>
   stderr_fileno no_memory \<noteq> - 1 \<and>
   length (fault_handlers (static_state refusing)) = NFAULT_SIGNALS refusing \<and>
   malloc_result no_memory = None \<and>
   list_all (\<lambda>sg. \<not> sig_valid refusing sg) (fault_signals refusing) \<and>
   fst (faulthandler_enable refusing no_memory (static_state refusing)) = Inr () \<and>
   faulthandler_isenabled (snd (faulthandler_enable refusing no_memory (static_state refusing))) \<and>
   list_all (\<lambda>h. enabled h = 0)
     (fault_handlers (snd (faulthandler_enable refusing no_memory (static_state refusing))))"
proof -
  have d: "faulthandler_enabled (static_state refusing) = 0"
    and l: "length (fault_handlers (static_state refusing)) = NFAULT_SIGNALS refusing"
    by (simp_all add: static_state_def)
  have f: "stderr_fileno no_memory \<noteq> - 1" and m: "malloc_result no_memory = None"
    by (simp_all add: no_memory_def answers_def)
  have r: "\<forall>sg \<in> set (fault_signals refusing). \<not> sig_valid refusing sg"
    by (simp add: refusing_def)
  show ?thesis
    using enable_sets_flag_first [OF d f l] d f l m r
    by (simp add: list_all_iff)
qed

section \<open>The controller: disable\<close>

lemma clear_same: "enabled h = 0 \<Longrightarrow> h\<lparr>enabled := 0\<rparr> = h"
  by (cases h) simp

lemma disable_entry_table:
  "fault_handlers (disable_entry p i s)
     = (fault_handlers s)[i := (fault_handlers s ! i)\<lparr>enabled := 0\<rparr>]"
  by (simp add: disable_entry_def clear_enabled_def set_handler_def clear_same)

lemma disable_entry_calls:
  "os_calls (disable_entry p i s) =
     os_calls s @ (if enabled (fault_handlers s ! i) \<noteq> 0
                   then [restore_call p (fault_handlers s ! i)] else [])"
  by (simp add: disable_entry_def clear_enabled_def set_handler_def restore_previous_calls
      restore_call_def)

text \<open>What giving back the previous handler of one entry does to the dispositions.\<close>

lemma disable_entry_disposition:
  "sig_disposition (disable_entry p i s) =
     (if enabled (fault_handlers s ! i) \<noteq> 0 \<and> sig_valid p (signum (fault_handlers s ! i))
      then (sig_disposition s)
             (signum (fault_handlers s ! i) :=
                restored_disposition p (previous (fault_handlers s ! i)))
      else sig_disposition s)"
  by (simp add: disable_entry_def clear_enabled_def set_handler_def restore_previous_disposition)

lemma disable_entry_flag [simp]:
  "faulthandler_enabled (disable_entry p i s) = faulthandler_enabled s"
  by (simp add: disable_entry_def clear_enabled_def restore_previous_def os_sigaction_def
      os_signal_def Let_def)

lemma disable_loop_length:
  "length (fault_handlers (fold (disable_entry p) is s)) = length (fault_handlers s)"
  by (rule fold_field) (simp add: disable_entry_table)

lemma disable_loop_nth:
  "j < length (fault_handlers s) \<Longrightarrow>
   fault_handlers (fold (disable_entry p) [0..<k] s) ! j =
     (if j < k then (fault_handlers s ! j)\<lparr>enabled := 0\<rparr> else fault_handlers s ! j)"
proof (induction k)
  case 0
  show ?case by simp
next
  case (Suc k)
  have "j < length (fault_handlers (fold (disable_entry p) [0..<k] s))"
    using Suc.prems by (simp add: disable_loop_length)
  with Suc show ?case
    by (simp only: fold_upt_Suc) (auto simp: disable_entry_table nth_list_update less_Suc_eq)
qed

text \<open>The loop of lines 228 to 238 as one pass over the entries.\<close>

lemma disable_loop_calls:
  "k \<le> length (fault_handlers s) \<Longrightarrow>
   os_calls (fold (disable_entry p) [0..<k] s) =
     os_calls s @ map (restore_call p) (filter (\<lambda>h. enabled h \<noteq> 0) (take k (fault_handlers s)))"
proof (induction k)
  case 0
  show ?case by simp
next
  case (Suc k)
  then have k: "k < length (fault_handlers s)" by simp
  have "fault_handlers (fold (disable_entry p) [0..<k] s) ! k = fault_handlers s ! k"
    using k by (simp add: disable_loop_nth)
  with Suc k show ?case
    by (simp only: fold_upt_Suc) (simp add: disable_entry_calls take_Suc_conv_app_nth)
qed

lemma give_back_apply:
  "give_back p h d sg =
     (if enabled h \<noteq> 0 \<and> sig_valid p (signum h) \<and> sg = signum h
      then restored_disposition p (previous h) else d sg)"
  by (simp add: give_back_def)

lemma disable_loop_disposition:
  "k \<le> length (fault_handlers s) \<Longrightarrow>
   sig_disposition (fold (disable_entry p) [0..<k] s) =
     fold (give_back p) (take k (fault_handlers s)) (sig_disposition s)"
proof (induction k)
  case 0
  show ?case by simp
next
  case (Suc k)
  then have k: "k < length (fault_handlers s)" by simp
  have "fault_handlers (fold (disable_entry p) [0..<k] s) ! k = fault_handlers s ! k"
    using k by (simp add: disable_loop_nth)
  with Suc k show ?case
    by (simp only: fold_upt_Suc)
       (simp add: disable_entry_disposition take_Suc_conv_app_nth give_back_def)
qed

lemma give_back_miss:
  "sg \<notin> signum ` {h \<in> set hs. enabled h \<noteq> 0} \<Longrightarrow> fold (give_back p) hs d sg = d sg"
proof (induction hs arbitrary: d)
  case Nil
  show ?case by simp
next
  case (Cons a hs)
  from Cons.prems have "sg \<notin> signum ` {h \<in> set hs. enabled h \<noteq> 0}"
    and "enabled a \<noteq> 0 \<longrightarrow> sg \<noteq> signum a"
    by auto
  with Cons.IH [of "give_back p a d"] show ?case
    by (auto simp: give_back_apply)
qed

lemma give_back_hit:
  assumes "h \<in> set hs" and "enabled h \<noteq> 0" and "sig_valid p (signum h)"
    and "distinct (map signum (filter (\<lambda>h. enabled h \<noteq> 0) hs))"
  shows "fold (give_back p) hs d (signum h) = restored_disposition p (previous h)"
  using assms
proof (induction hs arbitrary: d)
  case Nil
  then show ?case by simp
next
  case (Cons a hs)
  show ?case
  proof (cases "h \<in> set hs")
    case True
    with Cons show ?thesis by (simp split: if_splits)
  next
    case False
    with Cons.prems have a: "a = h" by simp
    have "signum h \<notin> signum ` {x \<in> set hs. enabled x \<noteq> 0}"
      using Cons.prems(2,4) unfolding a by auto
    then have "fold (give_back p) hs (give_back p h d) (signum h) = give_back p h d (signum h)"
      by (rule give_back_miss)
    moreover have "give_back p h d (signum h) = restored_disposition p (previous h)"
      using Cons.prems(2,3) by (simp add: give_back_apply)
    ultimately show ?thesis
      unfolding a by (simp only: fold_simps o_apply)
  qed
qed

lemma disable_when_enabled:
  assumes en: "faulthandler_enabled s \<noteq> 0"
    and len0: "length (fault_handlers s) = NFAULT_SIGNALS p"
  shows "fst (faulthandler_disable p s) = Inr () \<and>
      faulthandler_enabled (snd (faulthandler_disable p s)) = 0 \<and>
      fault_handlers (snd (faulthandler_disable p s))
        = map (\<lambda>h. h\<lparr>enabled := 0\<rparr>) (fault_handlers s) \<and>
      new_calls s (snd (faulthandler_disable p s))
        = map (restore_call p) (filter (\<lambda>h. enabled h \<noteq> 0) (fault_handlers s)) \<and>
      sig_disposition (snd (faulthandler_disable p s))
        = fold (give_back p) (fault_handlers s) (sig_disposition s) \<and>
      (distinct (map signum (filter (\<lambda>h. enabled h \<noteq> 0) (fault_handlers s))) \<longrightarrow>
         (\<forall>h \<in> set (fault_handlers s).
            enabled h \<noteq> 0 \<and> sig_valid p (signum h) \<longrightarrow>
              sig_disposition (snd (faulthandler_disable p s)) (signum h)
                = restored_disposition p (previous h))) \<and>
      (\<forall>sg. sg \<notin> signum ` {h \<in> set (fault_handlers s). enabled h \<noteq> 0} \<longrightarrow>
         sig_disposition (snd (faulthandler_disable p s)) sg = sig_disposition s sg)"
proof (intro conjI impI)
  let ?s0 = "s\<lparr>faulthandler_enabled := 0\<rparr>"
  let ?s' = "snd (faulthandler_disable p s)"
  have s': "?s' = fold (disable_entry p) [0..<NFAULT_SIGNALS p] ?s0"
    using en by (simp add: faulthandler_disable_def)
  have len: "length (fault_handlers ?s0) = NFAULT_SIGNALS p"
    using len0 by simp
  show "fst (faulthandler_disable p s) = Inr ()"
    by (simp add: faulthandler_disable_def)
  show "faulthandler_enabled ?s' = 0"
    unfolding s' by (simp add: fold_field)
  show "fault_handlers ?s' = map (\<lambda>h. h\<lparr>enabled := 0\<rparr>) (fault_handlers s)"
    unfolding s' using len
    by (auto intro!: nth_equalityI simp: disable_loop_length disable_loop_nth)
  show "new_calls s ?s'
          = map (restore_call p) (filter (\<lambda>h. enabled h \<noteq> 0) (fault_handlers s))"
    unfolding s' using len by (simp add: new_calls_def disable_loop_calls)
  show disp: "sig_disposition ?s' = fold (give_back p) (fault_handlers s) (sig_disposition s)"
    unfolding s' using len by (simp add: disable_loop_disposition)
  show "\<forall>sg. sg \<notin> signum ` {h \<in> set (fault_handlers s). enabled h \<noteq> 0} \<longrightarrow>
          sig_disposition ?s' sg = sig_disposition s sg"
    unfolding disp by (simp add: give_back_miss)
  assume "distinct (map signum (filter (\<lambda>h. enabled h \<noteq> 0) (fault_handlers s)))"
  then show "\<forall>h \<in> set (fault_handlers s).
          enabled h \<noteq> 0 \<and> sig_valid p (signum h) \<longrightarrow>
            sig_disposition ?s' (signum h) = restored_disposition p (previous h)"
    unfolding disp by (simp add: give_back_hit)
qed

text \<open>
  Claim C3. \<^verbatim>\<open>disable()\<close> is a no-op when the state is already Disabled; otherwise,
  for every entry of the table whose enabled flag is true, it restores that entry's
  stored previous disposition and clears the flag, leaving every entry disabled and the
  state Disabled.

  In the Disabled state the state is returned as it is. In the Enabled state the flag of
  the module is 0 afterwards, the table is the old one with every entry's flag 0, the
  calls made are exactly one restoring call for each entry that was enabled, in the
  order of the table, with that entry's signal and previous handler, and the dispositions
  are the old ones with those handlers given back: where the enabled entries have
  different signals, the disposition of each enabled entry's signal is its previous one
  (the kernel accepting that signal, as it did when the entry was enabled), and no other
  signal changes its disposition.
\<close>

theorem disable_restores:
  "(faulthandler_enabled s = 0 \<longrightarrow> faulthandler_disable p s = (Inr (), s)) \<and>
   (faulthandler_enabled s \<noteq> 0 \<and> length (fault_handlers s) = NFAULT_SIGNALS p \<longrightarrow>
      fst (faulthandler_disable p s) = Inr () \<and>
      faulthandler_enabled (snd (faulthandler_disable p s)) = 0 \<and>
      fault_handlers (snd (faulthandler_disable p s))
        = map (\<lambda>h. h\<lparr>enabled := 0\<rparr>) (fault_handlers s) \<and>
      new_calls s (snd (faulthandler_disable p s))
        = map (restore_call p) (filter (\<lambda>h. enabled h \<noteq> 0) (fault_handlers s)) \<and>
      sig_disposition (snd (faulthandler_disable p s))
        = fold (give_back p) (fault_handlers s) (sig_disposition s) \<and>
      (distinct (map signum (filter (\<lambda>h. enabled h \<noteq> 0) (fault_handlers s))) \<longrightarrow>
         (\<forall>h \<in> set (fault_handlers s).
            enabled h \<noteq> 0 \<and> sig_valid p (signum h) \<longrightarrow>
              sig_disposition (snd (faulthandler_disable p s)) (signum h)
                = restored_disposition p (previous h))) \<and>
      (\<forall>sg. sg \<notin> signum ` {h \<in> set (fault_handlers s). enabled h \<noteq> 0} \<longrightarrow>
         sig_disposition (snd (faulthandler_disable p s)) sg = sig_disposition s sg))"
proof (intro conjI)
  show "faulthandler_enabled s = 0 \<longrightarrow> faulthandler_disable p s = (Inr (), s)"
    by (simp add: faulthandler_disable_def)
  show "faulthandler_enabled s \<noteq> 0 \<and> length (fault_handlers s) = NFAULT_SIGNALS p \<longrightarrow>
      fst (faulthandler_disable p s) = Inr () \<and>
      faulthandler_enabled (snd (faulthandler_disable p s)) = 0 \<and>
      fault_handlers (snd (faulthandler_disable p s))
        = map (\<lambda>h. h\<lparr>enabled := 0\<rparr>) (fault_handlers s) \<and>
      new_calls s (snd (faulthandler_disable p s))
        = map (restore_call p) (filter (\<lambda>h. enabled h \<noteq> 0) (fault_handlers s)) \<and>
      sig_disposition (snd (faulthandler_disable p s))
        = fold (give_back p) (fault_handlers s) (sig_disposition s) \<and>
      (distinct (map signum (filter (\<lambda>h. enabled h \<noteq> 0) (fault_handlers s))) \<longrightarrow>
         (\<forall>h \<in> set (fault_handlers s).
            enabled h \<noteq> 0 \<and> sig_valid p (signum h) \<longrightarrow>
              sig_disposition (snd (faulthandler_disable p s)) (signum h)
                = restored_disposition p (previous h))) \<and>
      (\<forall>sg. sg \<notin> signum ` {h \<in> set (fault_handlers s). enabled h \<noteq> 0} \<longrightarrow>
         sig_disposition (snd (faulthandler_disable p s)) sg = sig_disposition s sg)"
    using disable_when_enabled [of s p] by blast
qed

theorem disable_restores_witness:
  "faulthandler_enabled (static_state linux) = 0 \<and>
   faulthandler_disable linux (static_state linux) = (Inr (), static_state linux) \<and>
   faulthandler_enabled enabled_linux \<noteq> 0 \<and>
   length (fault_handlers enabled_linux) = NFAULT_SIGNALS linux \<and>
   distinct (map signum (filter (\<lambda>h. enabled h \<noteq> 0) (fault_handlers enabled_linux))) \<and>
   list_all (\<lambda>h. enabled h \<noteq> 0 \<and> sig_valid linux (signum h)) (fault_handlers enabled_linux) \<and>
   faulthandler_enabled (snd (faulthandler_disable linux enabled_linux)) = 0 \<and>
   map enabled (fault_handlers (snd (faulthandler_disable linux enabled_linux))) = [0, 0, 0, 0] \<and>
   new_calls enabled_linux (snd (faulthandler_disable linux enabled_linux))
     = [Sigaction_call 7 (zero_previous linux), Sigaction_call 4 (zero_previous linux),
        Sigaction_call 8 (zero_previous linux), Sigaction_call 11 (zero_previous linux)] \<and>
   map (sig_disposition (snd (faulthandler_disable linux enabled_linux))) [7, 4, 8, 11]
     = [zero_previous linux, zero_previous linux, zero_previous linux, zero_previous linux] \<and>
   sig_disposition (snd (faulthandler_disable linux enabled_linux)) 14
     = sig_disposition enabled_linux 14"
proof -
  have d: "faulthandler_enabled (static_state linux) = 0"
    by (simp add: static_state_def)
  have e: "faulthandler_enabled enabled_linux \<noteq> 0"
    and t: "fault_handlers enabled_linux =
        [\<lparr>signum = 7, enabled = 1, name = Some ''Bus error'',
          previous = zero_previous linux\<rparr>,
         \<lparr>signum = 4, enabled = 1, name = Some ''Illegal instruction'',
          previous = zero_previous linux\<rparr>,
         \<lparr>signum = 8, enabled = 1, name = Some ''Floating point exception'',
          previous = zero_previous linux\<rparr>,
         \<lparr>signum = 11, enabled = 1, name = Some ''Segmentation fault'',
          previous = zero_previous linux\<rparr>]"
    by (simp_all add: enabled_linux_def)
  have v: "sig_valid linux 7" "sig_valid linux 4" "sig_valid linux 8" "sig_valid linux 11"
    and c: "HAVE_SIGACTION linux"
    by (simp_all add: linux_def)
  show ?thesis
    using disable_restores [of "static_state linux" linux] disable_restores [of enabled_linux linux]
      d e linux_length
    unfolding t
    by (simp add: v c restore_call_def restored_disposition_def give_back_apply)
qed

section \<open>Enable, then disable\<close>

text \<open>One installation, for an entry that is not enabled yet: the other entries are
  untouched; the entry is enabled only if the kernel accepted its signal, and then its
  previous handler gives back what the signal had; and the disposition of the signal is
  the fatal fault handler exactly when the kernel accepted it.\<close>

lemma install_other:
  "j \<noteq> i \<Longrightarrow> fault_handlers (enable_install p i s) ! j = fault_handlers s ! j"
  by (simp add: enable_install_def set_handler_def os_sigaction_def os_signal_def log_call_def
      Let_def split: option.splits)

lemma install_entry:
  assumes "i < length (fault_handlers s)" and "enabled (fault_handlers s ! i) = 0"
    and "enabled (fault_handlers (enable_install p i s) ! i) \<noteq> 0"
  shows "sig_valid p (signum (fault_handlers s ! i)) \<and>
         restored_disposition p (previous (fault_handlers (enable_install p i s) ! i))
           = restored_disposition p (sig_disposition s (signum (fault_handlers s ! i)))"
  using assms
  by (auto simp: enable_install_def set_handler_def os_sigaction_def os_signal_def log_call_def
      Let_def restored_disposition_def split: if_splits)

lemma install_entry_sigaction:
  assumes "HAVE_SIGACTION p" and "i < length (fault_handlers s)"
    and "sig_valid p (signum (fault_handlers s ! i))"
  shows "enabled (fault_handlers (enable_install p i s) ! i) = 1"
  using assms
  by (simp add: enable_install_def set_handler_def os_sigaction_def log_call_def Let_def)

lemma install_disposition:
  "sig_disposition (enable_install p i s) sg =
     (if sig_valid p (signum (fault_handlers s ! i)) \<and> sg = signum (fault_handlers s ! i)
      then (if HAVE_SIGACTION p then fatal_action p
            else signal_disposition p faulthandler_fatal_error_fn)
      else sig_disposition s sg)"
  by (simp add: enable_install_def set_handler_def os_sigaction_def os_signal_def log_call_def
      Let_def)

lemma install_loop_length:
  "length (fault_handlers (fold (enable_install p) is s)) = length (fault_handlers s)"
  by (rule fold_field) simp

lemma nth_notin_take: "distinct xs \<Longrightarrow> k < length xs \<Longrightarrow> xs ! k \<notin> set (take k xs)"
  by (auto simp: in_set_conv_nth nth_eq_iff_index_eq)

text \<open>The loop of lines 200 to 214 on a populated table whose entries are not enabled,
  where the monitored signals have different numbers.\<close>

lemma install_loop:
  assumes len: "length (fault_handlers s) = NFAULT_SIGNALS p"
    and sgs: "map signum (fault_handlers s) = fault_signals p"
    and off: "\<forall>h \<in> set (fault_handlers s). enabled h = 0"
    and dist: "distinct (fault_signals p)"
    and k: "k \<le> NFAULT_SIGNALS p"
  shows "(\<forall>sg. sig_disposition (fold (enable_install p) [0..<k] s) sg =
            (if sg \<in> set (take k (fault_signals p)) \<and> sig_valid p sg
             then (if HAVE_SIGACTION p then fatal_action p
                   else signal_disposition p faulthandler_fatal_error_fn)
             else sig_disposition s sg)) \<and>
         (\<forall>j < NFAULT_SIGNALS p.
            enabled (fault_handlers (fold (enable_install p) [0..<k] s) ! j) \<noteq> 0 \<longrightarrow>
              j < k \<and> sig_valid p (fault_signals p ! j) \<and>
              restored_disposition p
                (previous (fault_handlers (fold (enable_install p) [0..<k] s) ! j))
                = restored_disposition p (sig_disposition s (fault_signals p ! j))) \<and>
         (HAVE_SIGACTION p \<longrightarrow>
            (\<forall>j < k. sig_valid p (fault_signals p ! j) \<longrightarrow>
               enabled (fault_handlers (fold (enable_install p) [0..<k] s) ! j) \<noteq> 0))"
  using k
proof (induction k)
  case 0
  have "\<forall>j < NFAULT_SIGNALS p. enabled (fault_handlers s ! j) = 0"
    using off len by simp
  then show ?case by simp
next
  case (Suc k)
  let ?t = "fold (enable_install p) [0..<k] s"
  let ?sgk = "fault_signals p ! k"
  from Suc.prems have kn: "k < NFAULT_SIGNALS p" and kle: "k \<le> NFAULT_SIGNALS p" by simp_all
  note IH = Suc.IH [OF kle]
  from IH have IHb: "\<And>j. j < NFAULT_SIGNALS p \<Longrightarrow>
      enabled (fault_handlers ?t ! j) \<noteq> 0 \<Longrightarrow>
      j < k \<and> sig_valid p (fault_signals p ! j) \<and>
      restored_disposition p (previous (fault_handlers ?t ! j))
        = restored_disposition p (sig_disposition s (fault_signals p ! j))"
    by blast
  from IH have IHc: "\<And>j. HAVE_SIGACTION p \<Longrightarrow> j < k \<Longrightarrow>
      sig_valid p (fault_signals p ! j) \<Longrightarrow> enabled (fault_handlers ?t ! j) \<noteq> 0"
    by blast
  have tlen: "length (fault_handlers ?t) = NFAULT_SIGNALS p"
    by (simp add: install_loop_length len)
  have tsg: "map signum (fault_handlers ?t) = fault_signals p"
    by (simp add: install_loop_keeps sgs)
  have ksg: "signum (fault_handlers ?t ! k) = ?sgk"
    using tsg kn tlen by (metis nth_map)
  have koff: "enabled (fault_handlers ?t ! k) = 0"
    using IHb [OF kn] by auto
  have fresh: "?sgk \<notin> set (take k (fault_signals p))"
    using dist kn by (simp add: nth_notin_take NFAULT_SIGNALS_def)
  have kdisp: "sig_disposition ?t ?sgk = sig_disposition s ?sgk"
    using IH fresh by simp
  have take: "set (take (Suc k) (fault_signals p)) = insert ?sgk (set (take k (fault_signals p)))"
    using kn by (simp add: take_Suc_conv_app_nth NFAULT_SIGNALS_def)
  have step: "fold (enable_install p) [0..<Suc k] s = enable_install p k ?t"
    by simp
  have a: "\<forall>sg. sig_disposition (enable_install p k ?t) sg =
            (if sg \<in> set (take (Suc k) (fault_signals p)) \<and> sig_valid p sg
             then (if HAVE_SIGACTION p then fatal_action p
                   else signal_disposition p faulthandler_fatal_error_fn)
             else sig_disposition s sg)"
    using IH fresh by (auto simp: install_disposition ksg take)
  have b: "\<forall>j < NFAULT_SIGNALS p.
            enabled (fault_handlers (enable_install p k ?t) ! j) \<noteq> 0 \<longrightarrow>
              j < Suc k \<and> sig_valid p (fault_signals p ! j) \<and>
              restored_disposition p (previous (fault_handlers (enable_install p k ?t) ! j))
                = restored_disposition p (sig_disposition s (fault_signals p ! j))"
  proof (intro allI impI)
    fix j
    assume j: "j < NFAULT_SIGNALS p"
      and en: "enabled (fault_handlers (enable_install p k ?t) ! j) \<noteq> 0"
    show "j < Suc k \<and> sig_valid p (fault_signals p ! j) \<and>
          restored_disposition p (previous (fault_handlers (enable_install p k ?t) ! j))
            = restored_disposition p (sig_disposition s (fault_signals p ! j))"
    proof (cases "j = k")
      case True
      have "k < length (fault_handlers ?t)" using kn tlen by simp
      from install_entry [OF this koff en [unfolded True]] show ?thesis
        unfolding True ksg kdisp by simp
    next
      case False
      with en have "enabled (fault_handlers ?t ! j) \<noteq> 0"
        by (simp add: install_other)
      from IHb [OF j this] False show ?thesis
        by (simp add: install_other)
    qed
  qed
  have c: "HAVE_SIGACTION p \<longrightarrow>
            (\<forall>j < Suc k. sig_valid p (fault_signals p ! j) \<longrightarrow>
               enabled (fault_handlers (enable_install p k ?t) ! j) \<noteq> 0)"
  proof (intro allI impI)
    fix j
    assume sa: "HAVE_SIGACTION p" and j: "j < Suc k" and v: "sig_valid p (fault_signals p ! j)"
    show "enabled (fault_handlers (enable_install p k ?t) ! j) \<noteq> 0"
    proof (cases "j = k")
      case True
      have "k < length (fault_handlers ?t)" using kn tlen by simp
      from install_entry_sigaction [OF sa this] v show ?thesis
        unfolding True ksg by simp
    next
      case False
      with j have "j < k" by simp
      from IHc [OF sa this v] False show ?thesis
        by (simp add: install_other)
    qed
  qed
  show ?case
    unfolding step using a b c by blast
qed

text \<open>The second half of what the specification says of \<^verbatim>\<open>disable()\<close>: after
  \<^verbatim>\<open>enable()\<close> it gives every installed entry's signal the disposition it had before
  \<^verbatim>\<open>enable()\<close> was called, and with \<^verbatim>\<open>sigaction\<close> the dispositions of all signals are
  then what they were. The monitored signals have different numbers.\<close>

lemma enable_then_disable:
  assumes dis: "faulthandler_enabled s = 0"
    and fd_ok: "stderr_fileno e \<noteq> - 1"
    and len: "length (fault_handlers s) = NFAULT_SIGNALS p"
    and dist: "distinct (fault_signals p)"
  shows "(\<forall>h \<in> set (fault_handlers (snd (faulthandler_enable p e s))).
           enabled h \<noteq> 0 \<longrightarrow>
             sig_disposition (snd (faulthandler_disable p (snd (faulthandler_enable p e s))))
                 (signum h)
               = restored_disposition p (sig_disposition s (signum h))) \<and>
         (HAVE_SIGACTION p \<longrightarrow>
            sig_disposition (snd (faulthandler_disable p (snd (faulthandler_enable p e s))))
              = sig_disposition s)"
proof -
  let ?n = "NFAULT_SIGNALS p"
  let ?pre = "enable_atexit (enable_alloc_stack p e (enable_set_flag
               ((log_call Fflush_stderr s)\<lparr>fatal_error_fd := stderr_fileno e\<rparr>)))"
  let ?pop = "fold (enable_populate p) [0..<?n] ?pre"
  let ?t = "snd (faulthandler_enable p e s)"
  let ?u = "snd (faulthandler_disable p ?t)"
  have s3: "length (fault_handlers ?pre) = ?n" "sig_disposition ?pre = sig_disposition s"
    using len
    by (simp_all add: enable_atexit_def enable_alloc_stack_def enable_set_flag_def log_call_def
        os_sigaltstack_def Let_def)
  have t: "?t = fold (enable_install p) [0..<?n] ?pop"
    by (simp add: enable_final [OF dis fd_ok])
  have t0len: "length (fault_handlers ?pop) = ?n"
    by (simp add: populate_loop_length s3)
  have t0sg: "map signum (fault_handlers ?pop) = fault_signals p"
    by (rule populate_loop_table(1) [OF s3(1)])
  have "set (map enabled (fault_handlers ?pop)) \<subseteq> {0}"
    by (simp only: populate_loop_table(3) [OF s3(1)] set_replicate_conv_if) simp
  then have t0off: "\<forall>h \<in> set (fault_handlers ?pop). enabled h = 0"
    by auto
  have t0d: "sig_disposition ?pop = sig_disposition s"
    by (simp add: populate_loop_keeps s3)
  note loop = install_loop [OF t0len t0sg t0off dist order_refl, folded t, unfolded t0d]
  from loop have la: "\<And>sg. sig_disposition ?t sg =
      (if sg \<in> set (fault_signals p) \<and> sig_valid p sg
       then (if HAVE_SIGACTION p then fatal_action p
             else signal_disposition p faulthandler_fatal_error_fn)
       else sig_disposition s sg)"
    by (simp add: NFAULT_SIGNALS_def)
  from loop have lb: "\<And>j. j < ?n \<Longrightarrow> enabled (fault_handlers ?t ! j) \<noteq> 0 \<Longrightarrow>
      sig_valid p (fault_signals p ! j) \<and>
      restored_disposition p (previous (fault_handlers ?t ! j))
        = restored_disposition p (sig_disposition s (fault_signals p ! j))"
    by blast
  from loop have lc: "\<And>j. HAVE_SIGACTION p \<Longrightarrow> j < ?n \<Longrightarrow>
      sig_valid p (fault_signals p ! j) \<Longrightarrow> enabled (fault_handlers ?t ! j) \<noteq> 0"
    by blast
  have tlen: "length (fault_handlers ?t) = ?n"
    unfolding t by (simp add: install_loop_length t0len)
  have tsg: "map signum (fault_handlers ?t) = fault_signals p"
    unfolding t by (simp add: install_loop_keeps t0sg)
  have ten: "faulthandler_enabled ?t \<noteq> 0"
    using enable_success_flag [of p e s] by (simp add: enable_final [OF dis fd_ok])
  have tdist: "distinct (map signum (filter (\<lambda>h. enabled h \<noteq> 0) (fault_handlers ?t)))"
    using dist tsg by (metis distinct_map_filter)
  note dr = disable_when_enabled [OF ten tlen]
  have entry: "\<And>h. h \<in> set (fault_handlers ?t) \<Longrightarrow> enabled h \<noteq> 0 \<Longrightarrow>
      sig_valid p (signum h) \<and>
      restored_disposition p (previous h) = restored_disposition p (sig_disposition s (signum h))"
  proof -
    fix h assume "h \<in> set (fault_handlers ?t)" and en: "enabled h \<noteq> 0"
    then obtain j where j: "j < ?n" and h: "h = fault_handlers ?t ! j"
      using tlen by (auto simp: in_set_conv_nth)
    have "signum h = fault_signals p ! j"
      using tsg j tlen unfolding h by (metis nth_map)
    with lb [OF j en [unfolded h]] show "sig_valid p (signum h) \<and>
      restored_disposition p (previous h) = restored_disposition p (sig_disposition s (signum h))"
      unfolding h by simp
  qed
  have part1: "\<forall>h \<in> set (fault_handlers ?t).
      enabled h \<noteq> 0 \<longrightarrow>
        sig_disposition ?u (signum h) = restored_disposition p (sig_disposition s (signum h))"
  proof (intro ballI impI)
    fix h assume h: "h \<in> set (fault_handlers ?t)" and en: "enabled h \<noteq> 0"
    from dr tdist h en entry [OF h en]
    have "sig_disposition ?u (signum h) = restored_disposition p (previous h)"
      by blast
    with entry [OF h en] show
      "sig_disposition ?u (signum h) = restored_disposition p (sig_disposition s (signum h))"
      by simp
  qed
  have part2: "sig_disposition ?u = sig_disposition s" if sa: "HAVE_SIGACTION p"
  proof (rule ext)
    fix sg
    show "sig_disposition ?u sg = sig_disposition s sg"
    proof (cases "sg \<in> signum ` {h \<in> set (fault_handlers ?t). enabled h \<noteq> 0}")
      case True
      then obtain h where "h \<in> set (fault_handlers ?t)" "enabled h \<noteq> 0" "sg = signum h"
        by auto
      with part1 sa show ?thesis
        by (simp add: restored_disposition_def)
    next
      case False
      with dr have same: "sig_disposition ?u sg = sig_disposition ?t sg"
        by blast
      have "\<not> (sg \<in> set (fault_signals p) \<and> sig_valid p sg)"
      proof
        assume m: "sg \<in> set (fault_signals p) \<and> sig_valid p sg"
        then obtain j where j: "j < ?n" and sgj: "sg = fault_signals p ! j"
          by (auto simp: in_set_conv_nth NFAULT_SIGNALS_def)
        with lc [OF sa j] m have en: "enabled (fault_handlers ?t ! j) \<noteq> 0"
          by simp
        have "signum (fault_handlers ?t ! j) = sg"
          using tsg j tlen unfolding sgj by (metis nth_map)
        moreover have "fault_handlers ?t ! j \<in> set (fault_handlers ?t)"
          using j tlen by simp
        ultimately show False using False en by force
      qed
      then have "sig_disposition ?t sg = sig_disposition s sg"
        by (simp only: la if_False)
      with same show ?thesis by simp
    qed
  qed
  from part1 part2 show ?thesis by blast
qed

end
